theory Spec2Isabelle
  imports Main "HOL-Library.Log_Nat" "HOL-Library.Multiset"
begin

section \<open>JavaScript numbers\<close>

text \<open>
  Pixel extents (\<open>img.width\<close>, \<open>canvas.height\<close>) are unsigned longs and are modelled
  as \<open>nat\<close>; their sums, minima and maxima are integers, and below \<open>2^53\<close> (more than two
  million images side by side) the JavaScript \<open>+\<close> is integer addition. Fractions only
  appear in the resize pass of \<open>stitchImages\<close> (\<open>img.width / img.height\<close>,
  \<open>targetHeight * aspectRatio\<close>, \<open>targetWidth / aspectRatio\<close>); these are IEEE 754
  binary64 operations and are modelled as the exact rational result rounded to the nearest
  binary64 value, ties to even. Negative zero is identified with zero (the program has no
  negative number).
\<close>

datatype jsnum = Num rat | PosInf | NegInf | NaN

definition pow2 :: "int \<Rightarrow> rat" where
  "pow2 e = (if 0 \<le> e then 2 ^ nat e else 1 / 2 ^ nat (- e))"

definition floor_log2 :: "rat \<Rightarrow> int" where
  \<comment> \<open>for \<open>0 < q\<close>: the \<open>k\<close> with \<open>2^k \<le> q < 2^(k+1)\<close>\<close>
  "floor_log2 q = (case quotient_of q of (a, b) \<Rightarrow>
     let k = bitlen a - bitlen b in if pow2 k \<le> q then k else k - 1)"

definition round_half_even :: "rat \<Rightarrow> int" where
  "round_half_even q = (let f = \<lfloor>q\<rfloor>; r = q - of_int f in
     if r < 1 / 2 then f else if 1 / 2 < r then f + 1 else if even f then f else f + 1)"

definition round_double :: "rat \<Rightarrow> jsnum" where
  \<comment> \<open>53 significant bits \<open>m\<close>, least exponent \<open>-1074\<close>; the rounded magnitude
      \<open>m * 2^e\<close> overflows to infinity from \<open>2^1024\<close> on, that is when \<open>m\<close> has more
      than \<open>1024 - e\<close> bits\<close>
  "round_double q = (if q = 0 then Num 0 else
     let a = \<bar>q\<bar>; e = max (floor_log2 a - 52) (- 1074);
         m = round_half_even (a / pow2 e);
         r = of_int m * pow2 e
     in if 1024 < bitlen m + e then (if q < 0 then NegInf else PosInf)
        else Num (if q < 0 then - r else r))"

definition js_nat :: "nat \<Rightarrow> jsnum" where
  "js_nat n = Num (of_nat n)"

fun js_mul :: "jsnum \<Rightarrow> jsnum \<Rightarrow> jsnum" where
  "js_mul (Num a) (Num b) = round_double (a * b)"
| "js_mul (Num a) PosInf = (if a = 0 then NaN else if 0 < a then PosInf else NegInf)"
| "js_mul (Num a) NegInf = (if a = 0 then NaN else if 0 < a then NegInf else PosInf)"
| "js_mul PosInf (Num b) = (if b = 0 then NaN else if 0 < b then PosInf else NegInf)"
| "js_mul NegInf (Num b) = (if b = 0 then NaN else if 0 < b then NegInf else PosInf)"
| "js_mul PosInf PosInf = PosInf"
| "js_mul PosInf NegInf = NegInf"
| "js_mul NegInf PosInf = NegInf"
| "js_mul NegInf NegInf = PosInf"
| "js_mul NaN _ = NaN"
| "js_mul _ NaN = NaN"

fun js_div :: "jsnum \<Rightarrow> jsnum \<Rightarrow> jsnum" where
  "js_div (Num a) (Num b) =
     (if b = 0 then (if a = 0 then NaN else if 0 < a then PosInf else NegInf)
      else round_double (a / b))"
| "js_div (Num a) PosInf = Num 0"
| "js_div (Num a) NegInf = Num 0"
| "js_div PosInf (Num b) = (if 0 \<le> b then PosInf else NegInf)"
| "js_div NegInf (Num b) = (if 0 \<le> b then NegInf else PosInf)"
| "js_div PosInf PosInf = NaN"
| "js_div PosInf NegInf = NaN"
| "js_div NegInf PosInf = NaN"
| "js_div NegInf NegInf = NaN"
| "js_div NaN _ = NaN"
| "js_div _ NaN = NaN"

text \<open>
  Storing a number in \<open>canvas.width\<close> or \<open>canvas.height\<close> (lines 177, 178, 200 and
  201). The number is first converted to an unsigned long: NaN and the infinities become
  0, anything else is truncated towards zero and reduced modulo \<open>2^32\<close>. The attribute
  then takes the result when it is at most \<open>2147483647\<close>, and its default otherwise:
  300 for the width, 150 for the height.
\<close>

fun to_unsigned_long :: "jsnum \<Rightarrow> nat" where
  "to_unsigned_long (Num r) = nat ((if 0 \<le> r then \<lfloor>r\<rfloor> else - \<lfloor>- r\<rfloor>) mod 2 ^ 32)"
| "to_unsigned_long PosInf = 0"
| "to_unsigned_long NegInf = 0"
| "to_unsigned_long NaN = 0"

definition canvas_extent :: "nat \<Rightarrow> jsnum \<Rightarrow> nat" where
  "canvas_extent default_extent x =
     (if to_unsigned_long x \<le> 2147483647 then to_unsigned_long x else default_extent)"

text \<open>
  \<open>Math.min(...xs)\<close> and \<open>Math.max(...xs)\<close> over pixel extents. Each call in
  \<open>stitchImages\<close> passes one value per loaded image, and the function returns before
  the \<open>try\<close> block when there are fewer than two images: the list is never empty there.
\<close>

definition Math_min :: "nat list \<Rightarrow> nat" where
  "Math_min xs = Min (set xs)"

definition Math_max :: "nat list \<Rightarrow> nat" where
  "Math_max xs = Max (set xs)"

definition digit_char :: "nat \<Rightarrow> char" where
  "digit_char n = ''0123456789'' ! n"

fun show_nat :: "nat \<Rightarrow> string" where
  "show_nat n = (if n < 10 then [digit_char n] else show_nat (n div 10) @ [digit_char (n mod 10)])"

declare show_nat.simps [simp del]

section \<open>Data model of \<open>Home.vue\<close>\<close>

record uploaded_image =
  file_name :: string
  url :: string
  width :: nat
  height :: nat

text \<open>
  \<open>uploadedImages\<close> is a JavaScript array. An index at or beyond its length reads
  \<open>undefined\<close>, and a write there extends the array, leaving holes; a negative key
  is an ordinary property beside the elements.
\<close>

datatype slot = Hole | Undef | Item uploaded_image

record js_array =
  items :: "slot list"
  props :: "int \<Rightarrow> uploaded_image option"

definition empty_array :: js_array where
  "empty_array = \<lparr>items = [], props = (\<lambda>_. None)\<rparr>"

fun slot_value :: "slot \<Rightarrow> uploaded_image option" where
  "slot_value Hole = None"
| "slot_value Undef = None"
| "slot_value (Item x) = Some x"

fun slot_of :: "uploaded_image option \<Rightarrow> slot" where
  "slot_of None = Undef"
| "slot_of (Some x) = Item x"

definition js_get :: "js_array \<Rightarrow> int \<Rightarrow> uploaded_image option" where
  "js_get a i =
     (if i < 0 then props a i
      else if nat i < length (items a) then slot_value (items a ! nat i)
      else None)"

definition js_set :: "js_array \<Rightarrow> int \<Rightarrow> uploaded_image option \<Rightarrow> js_array" where
  "js_set a i v =
     (if i < 0 then a\<lparr>props := (props a)(i := v)\<rparr>
      else if nat i < length (items a) then a\<lparr>items := (items a)[nat i := slot_of v]\<rparr>
      else a\<lparr>items := items a @ replicate (nat i - length (items a)) Hole @ [slot_of v]\<rparr>)"

definition splice1 :: "js_array \<Rightarrow> int \<Rightarrow> js_array" where
  \<comment> \<open>\<open>a.splice(index, 1)\<close>: a negative start counts from the end\<close>
  "splice1 a index =
     (let len = int (length (items a));
          start = (if index < 0 then max (len + index) 0 else min index len)
      in a\<lparr>items := take (nat start) (items a) @ drop (nat start + 1) (items a)\<rparr>)"

text \<open>What the canvas API is given: image elements, canvases and the calls made on them.\<close>

datatype drawable =
    ImageEl string nat nat
  | CanvasEl nat nat "draw_op list"
and draw_op =
    SetFillStyle string
  | FillRect nat nat nat nat
  | DrawImage drawable nat nat
  | DrawImageScaled drawable nat nat jsnum jsnum

fun dwidth :: "drawable \<Rightarrow> nat" where
  "dwidth (ImageEl u w h) = w"
| "dwidth (CanvasEl w h ops) = w"

fun dheight :: "drawable \<Rightarrow> nat" where
  "dheight (ImageEl u w h) = h"
| "dheight (CanvasEl w h ops) = h"

fun calls :: "drawable \<Rightarrow> draw_op list" where
  "calls (ImageEl u w h) = []"
| "calls (CanvasEl w h ops) = ops"

datatype js_error = Error string | TypeError string | DOMException string

fun error_text :: "js_error \<Rightarrow> string" where
  "error_text (Error m) = ''Error: '' @ m"
| "error_text (TypeError m) = ''TypeError: '' @ m"
| "error_text (DOMException m) = m"

record toast =
  severity :: string
  summary :: string
  detail :: string
  life :: nat

record download =
  href :: string
  filename :: string

text \<open>
  The refs of the component. A selection or colour that is \<open>null\<close> is the empty string
  here: like \<open>null\<close> it equals none of the option names and is falsy.
\<close>

record state =
  uploadedImages :: js_array
  stitchedImageUrl :: string
  isStitching :: bool
  layoutSelected :: string
  backgroundSelected :: string
  backgroundColor :: string
  adjustSizeSelected :: string
  toasts :: "toast list"
  downloads :: "download list"

text \<open>
  What the browser decides: whether an image URL decodes (and to which natural size),
  whether \<open>getContext("2d")\<close> yields a context for the output canvas and for the
  resize canvas of the image at each index, whether \<open>drawImage\<close> and \<open>toDataURL\<close>
  throw, the message of the TypeError for reading a property of \<open>undefined\<close>,
  and the clock.
\<close>

record env =
  decode :: "string \<Rightarrow> (nat \<times> nat) option"
  outputContext :: bool
  resizeContext :: "nat \<Rightarrow> bool"
  drawImageError :: "drawable \<Rightarrow> js_error option"
  toDataURL :: "drawable \<Rightarrow> js_error + string"
  typeErrorMessage :: "string \<Rightarrow> string"
  now :: nat

datatype 'a promise = Fulfilled 'a | Rejected js_error | Forever

datatype outcome = Settled state | Pending state

fun outcome_state :: "outcome \<Rightarrow> state" where
  "outcome_state (Settled s) = s"
| "outcome_state (Pending s) = s"

section \<open>Notifications (\<open>utils.ts\<close>)\<close>

definition toast_add :: "toast \<Rightarrow> state \<Rightarrow> state" where
  "toast_add t s = s\<lparr>toasts := toasts s @ [t]\<rparr>"

definition showToast_success :: "string \<Rightarrow> string \<Rightarrow> state \<Rightarrow> state" where
  "showToast_success sm dt s =
     toast_add \<lparr>severity = ''success'', summary = sm, detail = dt, life = 3000\<rparr> s"

definition showToast_error :: "string \<Rightarrow> string \<Rightarrow> state \<Rightarrow> state" where
  "showToast_error sm dt s =
     toast_add \<lparr>severity = ''error'', summary = sm, detail = dt, life = 3000\<rparr> s"

section \<open>\<open>stitchImages\<close>\<close>

text \<open>
  Lines 120 to 128: one promise per element, joined by \<open>Promise.all\<close>. The callback
  reads \<open>imgData.url\<close>, which throws on \<open>undefined\<close> and rejects that promise; a
  promise whose image never fires \<open>onload\<close> stays pending for ever. \<open>map\<close> skips a hole,
  and \<open>Promise.all\<close> then takes the missing entry as the value \<open>undefined\<close>.
\<close>

definition load_image :: "env \<Rightarrow> slot \<Rightarrow> drawable option promise" where
  "load_image env sl =
     (case sl of
        Hole \<Rightarrow> Fulfilled None
      | Undef \<Rightarrow> Rejected (TypeError (typeErrorMessage env ''url''))
      | Item imgData \<Rightarrow>
          (case decode env (url imgData) of
             None \<Rightarrow> Forever
           | Some (w, h) \<Rightarrow> Fulfilled (Some (ImageEl (url imgData) w h))))"

fun Promise_all :: "'a promise list \<Rightarrow> 'a list promise" where
  "Promise_all [] = Fulfilled []"
| "Promise_all (Rejected e # ps) = Rejected e"
| "Promise_all (Forever # ps) =
     (case Promise_all ps of Rejected e \<Rightarrow> Rejected e | _ \<Rightarrow> Forever)"
| "Promise_all (Fulfilled x # ps) =
     (case Promise_all ps of
        Fulfilled xs \<Rightarrow> Fulfilled (x # xs)
      | Rejected e \<Rightarrow> Rejected e
      | Forever \<Rightarrow> Forever)"

text \<open>Lines 140 to 161: the target extents of one image.\<close>

definition target_size ::
  "env \<Rightarrow> state \<Rightarrow> drawable option list \<Rightarrow> drawable \<Rightarrow> js_error + nat \<times> nat" where
  "target_size env s images img =
     (if layoutSelected s = ''Horizontal'' then
        (if adjustSizeSelected s = ''Min'' then
           (case those images of
              None \<Rightarrow> Inl (TypeError (typeErrorMessage env ''height''))
            | Some imgs \<Rightarrow> Inr (dwidth img, Math_min (map dheight imgs)))
         else if adjustSizeSelected s = ''Max'' then
           (case those images of
              None \<Rightarrow> Inl (TypeError (typeErrorMessage env ''height''))
            | Some imgs \<Rightarrow> Inr (dwidth img, Math_max (map dheight imgs)))
         else Inr (dwidth img, dheight img))
      else
        (if adjustSizeSelected s = ''Min'' then
           (case those images of
              None \<Rightarrow> Inl (TypeError (typeErrorMessage env ''width''))
            | Some imgs \<Rightarrow> Inr (Math_min (map dwidth imgs), dheight img))
         else if adjustSizeSelected s = ''Max'' then
           (case those images of
              None \<Rightarrow> Inl (TypeError (typeErrorMessage env ''width''))
            | Some imgs \<Rightarrow> Inr (Math_max (map dwidth imgs), dheight img))
         else Inr (dwidth img, dheight img)))"

text \<open>
  Lines 134 to 182: the callback of the resize pass, for the image at index \<open>i\<close>.
  Without a context the image is returned as it is, before anything is read from it.
\<close>

definition resize_image ::
  "env \<Rightarrow> state \<Rightarrow> drawable option list \<Rightarrow> nat \<Rightarrow> drawable option
    \<Rightarrow> js_error + drawable option" where
  "resize_image env s images i img =
     (if \<not> resizeContext env i then Inr img
      else case img of
        None \<Rightarrow> Inl (TypeError (typeErrorMessage env ''width''))
      | Some im \<Rightarrow>
          (case target_size env s images im of
             Inl e \<Rightarrow> Inl e
           | Inr (targetWidth, targetHeight) \<Rightarrow>
               let aspectRatio = js_div (js_nat (dwidth im)) (js_nat (dheight im));
                   newWidth = (if layoutSelected s = ''Horizontal''
                               then js_mul (js_nat targetHeight) aspectRatio
                               else js_nat targetWidth);
                   newHeight = (if layoutSelected s = ''Horizontal''
                                then js_nat targetHeight
                                else js_div (js_nat targetWidth) aspectRatio)
               in (case drawImageError env im of
                     Some e \<Rightarrow> Inl e
                   | None \<Rightarrow>
                       Inr (Some (CanvasEl (canvas_extent 300 newWidth)
                                    (canvas_extent 150 newHeight)
                                    [DrawImageScaled im 0 0 newWidth newHeight])))))"

fun sequence :: "('e + 'a) list \<Rightarrow> 'e + 'a list" where
  "sequence [] = Inr []"
| "sequence (Inl e # rs) = Inl e"
| "sequence (Inr x # rs) =
     (case sequence rs of Inl e \<Rightarrow> Inl e | Inr xs \<Rightarrow> Inr (x # xs))"

definition resize_pass ::
  "env \<Rightarrow> state \<Rightarrow> drawable option list \<Rightarrow> js_error + drawable option list" where
  "resize_pass env s images =
     (if adjustSizeSelected s \<noteq> ''None'' then
        sequence (map (\<lambda>(i, img). resize_image env s images i img) (enumerate 0 images))
      else Inr images)"

text \<open>Lines 185 to 197.\<close>

definition canvas_size :: "state \<Rightarrow> drawable list \<Rightarrow> nat \<times> nat" where
  "canvas_size s adjustedImages =
     (if layoutSelected s = ''Horizontal'' then
        (foldl (\<lambda>sum img. sum + dwidth img) 0 adjustedImages,
         Math_max (map dheight adjustedImages))
      else
        (Math_max (map dwidth adjustedImages),
         foldl (\<lambda>sum img. sum + dheight img) 0 adjustedImages))"

text \<open>Lines 203 to 217.\<close>

definition fill_color :: "state \<Rightarrow> string" where
  "fill_color s =
     (let color = (if backgroundColor s = [] then ''#ffffff'' else backgroundColor s)
      in if take 1 color \<noteq> ''#'' then ''#'' @ color else color)"

definition fill_background :: "state \<Rightarrow> nat \<Rightarrow> nat \<Rightarrow> draw_op list" where
  "fill_background s totalWidth totalHeight =
     (if backgroundSelected s = ''Color''
      then [SetFillStyle (fill_color s), FillRect 0 0 totalWidth totalHeight]
      else [])"

text \<open>Lines 219 to 233: the drawing loop, from the image at the head of the list on.\<close>

fun draw_images ::
  "env \<Rightarrow> state \<Rightarrow> drawable list \<Rightarrow> nat \<Rightarrow> nat \<Rightarrow> js_error + draw_op list" where
  "draw_images env s [] currentX currentY = Inr []"
| "draw_images env s (img # rest) currentX currentY =
     (case drawImageError env img of
        Some e \<Rightarrow> Inl e
      | None \<Rightarrow>
          if layoutSelected s = ''Horizontal'' then
            (case draw_images env s rest (currentX + dwidth img) currentY of
               Inl e \<Rightarrow> Inl e
             | Inr ops \<Rightarrow> Inr (DrawImage img currentX 0 # ops))
          else
            (case draw_images env s rest currentX (currentY + dheight img) of
               Inl e \<Rightarrow> Inl e
             | Inr ops \<Rightarrow> Inr (DrawImage img 0 currentY # ops)))"

text \<open>
  Lines 130 to 233 on the loaded images. An \<open>undefined\<close> among the adjusted images
  makes the first read of \<open>img.width\<close> in the bounds computation throw.
\<close>

definition compose :: "env \<Rightarrow> state \<Rightarrow> drawable option list \<Rightarrow> js_error + drawable" where
  "compose env s images =
     (case resize_pass env s images of
        Inl e \<Rightarrow> Inl e
      | Inr adjustedImages \<Rightarrow>
          (case those adjustedImages of
             None \<Rightarrow> Inl (TypeError (typeErrorMessage env ''width''))
           | Some adj \<Rightarrow>
               (case canvas_size s adj of
                  (totalWidth, totalHeight) \<Rightarrow>
                    (case draw_images env s adj 0 0 of
                       Inl e \<Rightarrow> Inl e
                     | Inr draws \<Rightarrow>
                         Inr (CanvasEl (canvas_extent 300 (js_nat totalWidth))
                                (canvas_extent 150 (js_nat totalHeight))
                                (fill_background s totalWidth totalHeight @ draws))))))"

text \<open>
  Lines 111 to 233, the \<open>try\<close> block up to the encoding: \<open>None\<close> when the \<open>await\<close> of
  line 120 never resumes, otherwise the exception thrown or the output canvas.
\<close>

definition render :: "env \<Rightarrow> state \<Rightarrow> (js_error + drawable) option" where
  "render env s =
     (if \<not> outputContext env then Some (Inl (Error ''Failed to get canvas context''))
      else case Promise_all (map (load_image env) (items (uploadedImages s))) of
        Forever \<Rightarrow> None
      | Rejected e \<Rightarrow> Some (Inl e)
      | Fulfilled images \<Rightarrow> Some (compose env s images))"

text \<open>
  Lines 97 to 253. \<open>Pending\<close> is the invocation that never resumes after its \<open>await\<close>,
  with the state as it left it. (The \<open>console\<close> output is not part of the state.)
\<close>

definition stitchImages :: "env \<Rightarrow> state \<Rightarrow> outcome" where
  "stitchImages env s =
     (if length (items (uploadedImages s)) < 2 then
        Settled (toast_add \<lparr>severity = ''error'', summary = ''Insufficient Images'',
                   detail = ''Please upload at least 2 images to stitch.'', life = 3000\<rparr> s)
      else
        let s1 = s\<lparr>isStitching := True\<rparr> in
        case render env s1 of
          None \<Rightarrow> Pending s1
        | Some r \<Rightarrow>
            (case (case r of Inl e \<Rightarrow> Inl e | Inr canvas \<Rightarrow> toDataURL env canvas) of
               Inl e \<Rightarrow>
                 Settled ((showToast_error ''Stitching Failed''
                             (''Failed to stitch images: '' @ error_text e) s1)
                          \<lparr>isStitching := False\<rparr>)
             | Inr dataUrl \<Rightarrow>
                 Settled (s1\<lparr>stitchedImageUrl := dataUrl, isStitching := False\<rparr>)))"

section \<open>The other handlers\<close>

text \<open>
  The handlers that call \<open>stitchImages\<close> do not await it; a handler is taken together
  with the composite it starts, and no other handler runs in between. \<open>onFileSelect\<close>
  (reading the chosen files) is left out: it adds an image to the list only in the
  \<open>onload\<close> handler of that image, with the size it decoded to.
\<close>

definition onFileClear :: "state \<Rightarrow> state" where
  "onFileClear s =
     toast_add \<lparr>severity = ''info'', summary = ''Files Cleared'',
       detail = ''All uploaded images have been cleared.'', life = 3000\<rparr>
       (s\<lparr>uploadedImages := empty_array, stitchedImageUrl := []\<rparr>)"

definition downloadStitchedImage :: "env \<Rightarrow> state \<Rightarrow> state" where
  "downloadStitchedImage env s =
     (if stitchedImageUrl s = [] then
        showToast_error ''No Image'' ''No stitched image available to download.'' s
      else
        showToast_success ''Download Started'' ''Stitched image download has started.''
          (s\<lparr>downloads := downloads s @
                [\<lparr>href = stitchedImageUrl s,
                  filename = ''stitched-image-'' @ show_nat (now env) @ ''.png''\<rparr>]\<rparr>))"

definition moveImageUp :: "env \<Rightarrow> state \<Rightarrow> int \<Rightarrow> outcome" where
  "moveImageUp env s index =
     (if 0 < index then
        let temp = js_get (uploadedImages s) index;
            a1 = js_set (uploadedImages s) index (js_get (uploadedImages s) (index - 1));
            a2 = js_set a1 (index - 1) temp
        in stitchImages env (s\<lparr>uploadedImages := a2, stitchedImageUrl := []\<rparr>)
      else Settled s)"

definition moveImageDown :: "env \<Rightarrow> state \<Rightarrow> int \<Rightarrow> outcome" where
  "moveImageDown env s index =
     (if index < int (length (items (uploadedImages s))) - 1 then
        let temp = js_get (uploadedImages s) index;
            a1 = js_set (uploadedImages s) index (js_get (uploadedImages s) (index + 1));
            a2 = js_set a1 (index + 1) temp
        in stitchImages env (s\<lparr>uploadedImages := a2, stitchedImageUrl := []\<rparr>)
      else Settled s)"

definition removeImage :: "env \<Rightarrow> state \<Rightarrow> int \<Rightarrow> outcome" where
  "removeImage env s index =
     (let s1 = s\<lparr>uploadedImages := splice1 (uploadedImages s) index, stitchedImageUrl := []\<rparr>;
          s2 = (if length (items (uploadedImages s1)) = 0
                then s1\<lparr>backgroundSelected := ''Transparent'', adjustSizeSelected := ''None''\<rparr>
                else s1)
      in stitchImages env s2)"

section \<open>A browser and some states to run the handlers on\<close>

text \<open>
  Every context is available, nothing throws, four image URLs decode.
\<close>

definition example_env :: env where
  "example_env =
     \<lparr>decode = (\<lambda>u. if u = ''data:a'' then Some (100, 50)
                     else if u = ''data:b'' then Some (80, 60)
                     else if u = ''data:c'' then Some (113, 100)
                     else if u = ''data:d'' then Some (200, 100) else None),
      outputContext = True,
      resizeContext = (\<lambda>i. True),
      drawImageError = (\<lambda>d. None),
      toDataURL = (\<lambda>c. Inr ''data:image/png''),
      typeErrorMessage = (\<lambda>p. ''undefined has no '' @ p),
      now = 1700000000000\<rparr>"

definition example_env_no_resize :: env where
  "example_env_no_resize = example_env\<lparr>resizeContext := (\<lambda>i. False)\<rparr>"

text \<open>A browser whose \<open>drawImage\<close> always throws.\<close>

definition example_env_throwing :: env where
  "example_env_throwing =
     example_env\<lparr>drawImageError := (\<lambda>d. Some (DOMException ''InvalidStateError''))\<rparr>"

text \<open>Images of 100 x 50 and 80 x 60, side by side, sizes untouched, no background.\<close>

definition example_state :: state where
  "example_state =
     \<lparr>uploadedImages =
        \<lparr>items = [Item \<lparr>file_name = ''a.png'', url = ''data:a'', width = 100, height = 50\<rparr>,
                  Item \<lparr>file_name = ''b.png'', url = ''data:b'', width = 80, height = 60\<rparr>],
         props = (\<lambda>k. None)\<rparr>,
      stitchedImageUrl = [],
      isStitching = False,
      layoutSelected = ''Horizontal'',
      backgroundSelected = ''Transparent'',
      backgroundColor = ''#ffffff'',
      adjustSizeSelected = ''None'',
      toasts = [],
      downloads = []\<rparr>"

text \<open>Images of 113 x 100 and 200 x 100, side by side, brought to the least height.\<close>

definition example_rounding :: state where
  "example_rounding =
     example_state
       \<lparr>uploadedImages :=
          \<lparr>items = [Item \<lparr>file_name = ''c.png'', url = ''data:c'', width = 113, height = 100\<rparr>,
                    Item \<lparr>file_name = ''d.png'', url = ''data:d'', width = 200, height = 100\<rparr>],
           props = (\<lambda>k. None)\<rparr>,
        adjustSizeSelected := ''Min''\<rparr>"

definition example_single :: state where
  "example_single =
     example_state
       \<lparr>uploadedImages :=
          \<lparr>items = [Item \<lparr>file_name = ''a.png'', url = ''data:a'', width = 100, height = 50\<rparr>],
           props = (\<lambda>k. None)\<rparr>\<rparr>"

text \<open>
  Images of 1 x 32768, 32768 x 1 and 32768 x 1, side by side, brought to the greatest
  height: the second and the third become 1073741824 pixels wide.
\<close>

definition example_env_wide :: env where
  "example_env_wide =
     example_env\<lparr>decode := (\<lambda>u. if u = ''data:e'' then Some (1, 32768)
                                else if u = ''data:f'' then Some (32768, 1) else None)\<rparr>"

definition example_wide :: state where
  "example_wide =
     example_state
       \<lparr>uploadedImages :=
          \<lparr>items = [Item \<lparr>file_name = ''e.png'', url = ''data:e'', width = 1, height = 32768\<rparr>,
                    Item \<lparr>file_name = ''f.png'', url = ''data:f'', width = 32768, height = 1\<rparr>,
                    Item \<lparr>file_name = ''f.png'', url = ''data:f'', width = 32768, height = 1\<rparr>],
           props = (\<lambda>k. None)\<rparr>,
        adjustSizeSelected := ''Max''\<rparr>"

text \<open>A browser in which no image ever finishes loading.\<close>

definition example_env_stalled :: env where
  "example_env_stalled = example_env\<lparr>decode := (\<lambda>u. None)\<rparr>"

section \<open>Basic facts\<close>

lemma foldl_add_sum_list:
  "foldl (\<lambda>sum img. sum + f img) a xs = a + sum_list (map f xs)"
  by (induction xs arbitrary: a) (simp_all add: add.assoc)

lemma those_eq_Some: "those xs = Some ys \<longleftrightarrow> xs = map Some ys"
  by (induction xs arbitrary: ys) (auto split: option.splits)

lemma those_map_Some: "those (map Some xs) = Some xs"
  by (simp add: those_eq_Some)

lemma map_Some_eq: "map Some xs = map Some ys \<longleftrightarrow> xs = ys"
  by (simp add: inj_map_eq_map)

lemma sequence_map_Inr: "sequence (map Inr xs) = Inr xs"
  by (induction xs) simp_all

lemma sequence_eq_Inr: "sequence rs = Inr xs \<longleftrightarrow> rs = map Inr xs"
proof
  show "sequence rs = Inr xs \<Longrightarrow> rs = map Inr xs"
    by (induction rs arbitrary: xs rule: sequence.induct) (auto split: sum.splits)
qed (simp add: sequence_map_Inr)

lemma Promise_all_map_Fulfilled: "Promise_all (map Fulfilled xs) = Fulfilled xs"
  by (induction xs) simp_all

lemma Promise_all_eq_Fulfilled:
  "Promise_all ps = Fulfilled xs \<longleftrightarrow> ps = map Fulfilled xs"
proof
  show "Promise_all ps = Fulfilled xs \<Longrightarrow> ps = map Fulfilled xs"
    by (induction ps arbitrary: xs rule: Promise_all.induct) (auto split: promise.splits)
qed (simp add: Promise_all_map_Fulfilled)

lemma Promise_all_Rejected:
  "(\<exists>e. Promise_all ps = Rejected e) \<longleftrightarrow> (\<exists>e. Rejected e \<in> set ps)"
proof (induction ps)
  case Nil
  then show ?case by simp
next
  case (Cons p ps)
  then show ?case
    by (cases p; cases "Promise_all ps") auto
qed

lemma Promise_all_Forever_iff:
  "Promise_all ps = Forever \<longleftrightarrow> Forever \<in> set ps \<and> (\<forall>e. Rejected e \<notin> set ps)"
proof (induction ps)
  case Nil
  then show ?case by simp
next
  case (Cons p ps)
  from Promise_all_Rejected[of ps] Cons show ?case
    by (cases p; cases "Promise_all ps") auto
qed

lemma to_unsigned_long_js_nat: "to_unsigned_long (js_nat n) = n mod 2 ^ 32"
proof -
  have "int n mod 2 ^ 32 = int (n mod 2 ^ 32)" by (simp add: zmod_int)
  then show ?thesis by (simp add: js_nat_def)
qed

lemma canvas_extent_js_nat:
  assumes "n \<le> 2147483647"
  shows "canvas_extent d (js_nat n) = n"
  using assms by (simp add: canvas_extent_def to_unsigned_long_js_nat)

lemma canvas_extent_fallback:
  assumes "2147483647 < n" and "n < 2 ^ 32"
  shows "canvas_extent d (js_nat n) = d"
  using assms by (simp add: canvas_extent_def to_unsigned_long_js_nat)

lemma canvas_extent_le:
  assumes "d \<le> 2147483647"
  shows "canvas_extent d (js_nat n) \<le> n"
proof (cases "n mod 2 ^ 32 \<le> 2147483647")
  case True
  then show ?thesis by (simp add: canvas_extent_def to_unsigned_long_js_nat)
next
  case False
  moreover have "n mod 2 ^ 32 \<le> n" by (rule mod_less_eq_dividend)
  ultimately show ?thesis
    using assms by (simp add: canvas_extent_def to_unsigned_long_js_nat)
qed

lemma canvas_extent_Num:
  assumes "0 \<le> r" and "\<lfloor>r\<rfloor> \<le> 2147483647"
  shows "canvas_extent d (Num r) = nat \<lfloor>r\<rfloor>"
proof -
  from assms have f: "0 \<le> \<lfloor>r\<rfloor>" and "\<lfloor>r\<rfloor> < 2 ^ 32" by simp_all
  then have "\<lfloor>r\<rfloor> mod 2 ^ 32 = \<lfloor>r\<rfloor>" by simp
  with assms(1) have u: "to_unsigned_long (Num r) = nat \<lfloor>r\<rfloor>" by simp
  from f assms(2) have "nat \<lfloor>r\<rfloor> \<le> 2147483647" by linarith
  with u show ?thesis unfolding canvas_extent_def by (simp only: if_True)
qed

lemma slot_value_slot_of: "slot_value (slot_of v) = v"
  by (cases v) simp_all

subsection \<open>The busy flag is not read by the composite\<close>

lemma draw_images_isStitching [simp]:
  "draw_images env (s\<lparr>isStitching := b\<rparr>) adj x y = draw_images env s adj x y"
  by (induction adj arbitrary: x y) (simp_all split: option.splits sum.splits)

lemma target_size_isStitching [simp]:
  "target_size env (s\<lparr>isStitching := b\<rparr>) images img = target_size env s images img"
  by (simp add: target_size_def)

lemma resize_image_isStitching [simp]:
  "resize_image env (s\<lparr>isStitching := b\<rparr>) images i img = resize_image env s images i img"
  by (simp add: resize_image_def cong: option.case_cong sum.case_cong)

lemma resize_pass_isStitching [simp]:
  "resize_pass env (s\<lparr>isStitching := b\<rparr>) images = resize_pass env s images"
  by (simp add: resize_pass_def case_prod_unfold)

lemma canvas_size_isStitching [simp]:
  "canvas_size (s\<lparr>isStitching := b\<rparr>) adj = canvas_size s adj"
  by (simp add: canvas_size_def)

lemma fill_background_isStitching [simp]:
  "fill_background (s\<lparr>isStitching := b\<rparr>) w h = fill_background s w h"
  by (simp add: fill_background_def fill_color_def)

lemma compose_isStitching [simp]:
  "compose env (s\<lparr>isStitching := b\<rparr>) images = compose env s images"
  by (simp add: compose_def cong: option.case_cong sum.case_cong)

lemma render_isStitching [simp]: "render env (s\<lparr>isStitching := b\<rparr>) = render env s"
  by (simp add: render_def cong: promise.case_cong)

text \<open>
  A composite that got as far as the output canvas \<open>canvas\<close> stores its encoding and
  clears the busy flag.
\<close>

lemma stitchImages_encodes:
  assumes "2 \<le> length (items (uploadedImages s))"
    and "render env s = Some (Inr canvas)" and "toDataURL env canvas = Inr dataUrl"
  shows "stitchImages env s = Settled (s\<lparr>stitchedImageUrl := dataUrl, isStitching := False\<rparr>)"
  using assms by (simp add: stitchImages_def)

lemma stitchImages_uploadedImages:
  "uploadedImages (outcome_state (stitchImages env s)) = uploadedImages s"
  by (simp add: stitchImages_def Let_def showToast_error_def toast_add_def
      split: option.splits sum.splits)

subsection \<open>The drawing loop\<close>

lemma draw_images_offsets:
  "draw_images env s adj x y = Inr ops \<Longrightarrow>
   ops = map (\<lambda>i. if layoutSelected s = ''Horizontal''
                  then DrawImage (adj ! i) (x + sum_list (map dwidth (take i adj))) 0
                  else DrawImage (adj ! i) 0 (y + sum_list (map dheight (take i adj))))
           [0..<length adj]"
proof (induction adj arbitrary: x y ops)
  case Nil
  then show ?case by simp
next
  case (Cons img rest)
  show ?case
  proof (cases "layoutSelected s = ''Horizontal''")
    case True
    with Cons.prems obtain ops' where
      r: "draw_images env s rest (x + dwidth img) y = Inr ops'"
      and o: "ops = DrawImage img x 0 # ops'"
      by (auto split: option.splits sum.splits)
    from Cons.IH[OF r] o True show ?thesis
      by (simp add: upt_conv_Cons map_Suc_upt[symmetric] add.assoc del: upt_Suc)
  next
    case False
    with Cons.prems obtain ops' where
      r: "draw_images env s rest x (y + dheight img) = Inr ops'"
      and o: "ops = DrawImage img 0 y # ops'"
      by (auto split: option.splits sum.splits)
    from Cons.IH[OF r] o False show ?thesis
      by (simp add: upt_conv_Cons map_Suc_upt[symmetric] add.assoc del: upt_Suc)
  qed
qed

subsection \<open>The resize pass\<close>

lemma resize_pass_length:
  assumes "resize_pass env s images = Inr adjusted"
  shows "length adjusted = length images"
proof (cases "adjustSizeSelected s = ''None''")
  case True
  with assms show ?thesis by (simp add: resize_pass_def)
next
  case False
  with assms
  have "map (\<lambda>(i, img). resize_image env s images i img) (enumerate 0 images) = map Inr adjusted"
    by (simp add: resize_pass_def sequence_eq_Inr)
  then have "length (enumerate 0 images) = length adjusted"
    by (rule map_eq_imp_length_eq)
  then show ?thesis by simp
qed

lemma resize_pass_nth:
  assumes "resize_pass env s images = Inr adjusted" and "i < length images"
    and "adjustSizeSelected s \<noteq> ''None''"
  shows "resize_image env s images i (images ! i) = Inr (adjusted ! i)"
proof -
  from assms
  have m: "map (\<lambda>(i, img). resize_image env s images i img) (enumerate 0 images) = map Inr adjusted"
    by (simp add: resize_pass_def sequence_eq_Inr)
  have l: "length adjusted = length images"
    using assms(1) by (rule resize_pass_length)
  from m
  have "map (\<lambda>(i, img). resize_image env s images i img) (enumerate 0 images) ! i
      = map Inr adjusted ! i"
    by simp
  with assms(2) l show ?thesis
    by (simp add: nth_enumerate_eq)
qed

lemma resize_image_defined:
  "resize_image env s images i img = Inr (Some y) \<Longrightarrow> \<exists>x. img = Some x"
  by (cases img) (auto simp: resize_image_def split: if_splits)

lemma resize_pass_defined:
  assumes "resize_pass env s images = Inr (map Some adj)"
  shows "\<exists>imgs. images = map Some imgs"
proof -
  have l: "length adj = length images"
    using resize_pass_length[OF assms] by simp
  have "\<forall>i<length images. \<exists>x. images ! i = Some x"
  proof (intro allI impI)
    fix i assume i: "i < length images"
    show "\<exists>x. images ! i = Some x"
    proof (cases "adjustSizeSelected s = ''None''")
      case True
      with assms have "images = map Some adj" by (simp add: resize_pass_def)
      with i show ?thesis by simp
    next
      case False
      from resize_pass_nth[OF assms i False] i l
      have "resize_image env s images i (images ! i) = Inr (Some (adj ! i))" by simp
      then show ?thesis by (rule resize_image_defined)
    qed
  qed
  then have "images = map Some (map the images)"
    by (auto simp: list_eq_iff_nth_eq)
  then show ?thesis ..
qed

subsection \<open>What a finished composite looks like\<close>

lemma render_success:
  assumes "render env s = Some (Inr canvas)"
  shows "\<exists>images adj.
      outputContext env
    \<and> Promise_all (map (load_image env) (items (uploadedImages s))) = Fulfilled (map Some images)
    \<and> length images = length (items (uploadedImages s))
    \<and> resize_pass env s (map Some images) = Inr (map Some adj)
    \<and> length adj = length images
    \<and> canvas = CanvasEl (canvas_extent 300 (js_nat (fst (canvas_size s adj))))
        (canvas_extent 150 (js_nat (snd (canvas_size s adj))))
        (fill_background s (fst (canvas_size s adj)) (snd (canvas_size s adj)) @
         map (\<lambda>i. if layoutSelected s = ''Horizontal''
                 then DrawImage (adj ! i) (sum_list (map dwidth (take i adj))) 0
                 else DrawImage (adj ! i) 0 (sum_list (map dheight (take i adj))))
           [0..<length adj])"
proof -
  from assms have ctx: "outputContext env"
    by (auto simp: render_def split: if_splits)
  with assms obtain loaded where
    p: "Promise_all (map (load_image env) (items (uploadedImages s))) = Fulfilled loaded"
    and c: "compose env s loaded = Inr canvas"
    by (auto simp: render_def split: promise.splits)
  from c obtain adjusted adj draws where
    r: "resize_pass env s loaded = Inr adjusted" and t: "those adjusted = Some adj"
    and d: "draw_images env s adj 0 0 = Inr draws"
    and cv: "canvas = CanvasEl (canvas_extent 300 (js_nat (fst (canvas_size s adj))))
        (canvas_extent 150 (js_nat (snd (canvas_size s adj))))
        (fill_background s (fst (canvas_size s adj)) (snd (canvas_size s adj)) @ draws)"
    by (auto simp: compose_def split: sum.splits option.splits prod.splits)
  from t have adjusted: "adjusted = map Some adj" by (simp add: those_eq_Some)
  with r obtain images where images: "loaded = map Some images"
    using resize_pass_defined by blast
  from p have "map (load_image env) (items (uploadedImages s)) = map Fulfilled loaded"
    by (simp add: Promise_all_eq_Fulfilled)
  then have "length (items (uploadedImages s)) = length loaded"
    using map_eq_imp_length_eq by fastforce
  with images have len: "length images = length (items (uploadedImages s))" by simp
  from r adjusted images have "length adj = length images"
    using resize_pass_length by fastforce
  with ctx p r cv adjusted images len draw_images_offsets[OF d] show ?thesis
    by auto
qed

subsection \<open>Loading\<close>

lemma load_image_Forever:
  "load_image env sl = Forever \<longleftrightarrow> (\<exists>d. sl = Item d \<and> decode env (url d) = None)"
  by (cases sl) (auto simp: load_image_def split: option.splits)

lemma load_image_Rejected: "(\<exists>e. load_image env sl = Rejected e) \<longleftrightarrow> sl = Undef"
  by (cases sl) (auto simp: load_image_def split: option.splits)

text \<open>
  The \<open>await\<close> of line 120 never resumes exactly when the output canvas has a context,
  no element is \<open>undefined\<close> and some image never finishes loading.
\<close>

lemma render_stalls:
  "render env s = None \<longleftrightarrow>
     outputContext env \<and> Undef \<notin> set (items (uploadedImages s))
     \<and> (\<exists>d. Item d \<in> set (items (uploadedImages s)) \<and> decode env (url d) = None)"
proof -
  let ?xs = "items (uploadedImages s)"
  let ?ps = "map (load_image env) ?xs"
  have "Forever \<in> set ?ps \<longleftrightarrow> (\<exists>sl \<in> set ?xs. load_image env sl = Forever)"
    unfolding set_map image_iff by metis
  then have f: "Forever \<in> set ?ps \<longleftrightarrow>
      (\<exists>d. Item d \<in> set ?xs \<and> decode env (url d) = None)"
    unfolding load_image_Forever by blast
  have "(\<exists>e. Rejected e \<in> set ?ps) \<longleftrightarrow> (\<exists>sl \<in> set ?xs. \<exists>e. load_image env sl = Rejected e)"
    unfolding set_map image_iff by metis
  then have r: "(\<exists>e. Rejected e \<in> set ?ps) \<longleftrightarrow> Undef \<in> set ?xs"
    unfolding load_image_Rejected by blast
  have "render env s = None \<longleftrightarrow> outputContext env \<and> Promise_all ?ps = Forever"
    by (auto simp: render_def split: promise.splits)
  also have "\<dots> \<longleftrightarrow> outputContext env \<and> Forever \<in> set ?ps \<and> \<not> (\<exists>e. Rejected e \<in> set ?ps)"
    by (simp add: Promise_all_Forever_iff)
  finally show ?thesis unfolding f r by blast
qed

subsection \<open>A composite that reaches its canvas exists\<close>

text \<open>
  When the output canvas has a context, every element of the list is an image whose URL
  decodes and \<open>drawImage\<close> does not throw, the \<open>try\<close> block gets to its output canvas.
\<close>

lemma load_all:
  assumes "\<forall>sl \<in> set xs. \<exists>d. sl = Item d \<and> decode env (url d) \<noteq> None"
  shows "\<exists>imgs. map (load_image env) xs = map Fulfilled (map Some imgs)"
  using assms
proof (induction xs)
  case Nil
  then show ?case by simp
next
  case (Cons sl xs)
  then obtain imgs where i: "map (load_image env) xs = map Fulfilled (map Some imgs)"
    by auto
  from Cons.prems obtain d w h where "sl = Item d" and "decode env (url d) = Some (w, h)"
    by auto
  then have "load_image env sl = Fulfilled (Some (ImageEl (url d) w h))"
    by (simp add: load_image_def)
  with i have "map (load_image env) (sl # xs)
      = map Fulfilled (map Some (ImageEl (url d) w h # imgs))"
    by simp
  then show ?case by blast
qed

lemma sequence_all:
  assumes "\<forall>x \<in> set xs. \<exists>y. f x = Inr (Some y)"
  shows "\<exists>ys. sequence (map f xs) = Inr (map Some ys)"
  using assms
proof (induction xs)
  case Nil
  then show ?case by simp
next
  case (Cons x xs)
  then obtain ys where "sequence (map f xs) = Inr (map Some ys)" by auto
  moreover from Cons.prems obtain y where "f x = Inr (Some y)" by auto
  ultimately have "sequence (map f (x # xs)) = Inr (map Some (y # ys))" by simp
  then show ?case by blast
qed

lemma resize_image_succeeds:
  assumes "drawImageError env im = None"
  shows "\<exists>y. resize_image env s (map Some imgs) i (Some im) = Inr (Some y)"
  using assms
  by (simp add: resize_image_def target_size_def those_map_Some Let_def)

lemma resize_pass_succeeds:
  assumes "\<forall>im. drawImageError env im = None"
  shows "\<exists>adj. resize_pass env s (map Some imgs) = Inr (map Some adj)"
proof (cases "adjustSizeSelected s = ''None''")
  case True
  then show ?thesis by (auto simp: resize_pass_def)
next
  case False
  have "\<forall>x \<in> set (enumerate 0 (map Some imgs)).
      \<exists>y. (\<lambda>(i, img). resize_image env s (map Some imgs) i img) x = Inr (Some y)"
  proof
    fix x assume "x \<in> set (enumerate 0 (map Some imgs))"
    then have "(fst x, snd x) \<in> set (zip [0..<length imgs] (map Some imgs))"
      by (simp add: enumerate_eq_zip)
    then have "snd x \<in> set (map Some imgs)"
      by (rule set_zip_rightD)
    then obtain i im where "x = (i, Some im)"
      by (cases x) auto
    with resize_image_succeeds[of env im s imgs i] assms
    show "\<exists>y. (\<lambda>(i, img). resize_image env s (map Some imgs) i img) x = Inr (Some y)"
      by simp
  qed
  from sequence_all[OF this] False show ?thesis
    by (simp add: resize_pass_def)
qed

lemma draw_images_succeeds:
  assumes "\<forall>im. drawImageError env im = None"
  shows "\<exists>ops. draw_images env s adj x y = Inr ops"
proof (induction adj arbitrary: x y)
  case Nil
  then show ?case by simp
next
  case (Cons img rest)
  from Cons[of "x + dwidth img" y] Cons[of x "y + dheight img"] assms
  show ?case by auto
qed

lemma render_succeeds:
  assumes "outputContext env"
    and "\<forall>sl \<in> set (items (uploadedImages s)). \<exists>d. sl = Item d \<and> decode env (url d) \<noteq> None"
    and "\<forall>im. drawImageError env im = None"
  shows "\<exists>canvas. render env s = Some (Inr canvas)"
proof -
  from load_all[OF assms(2)] obtain imgs where
    "map (load_image env) (items (uploadedImages s)) = map Fulfilled (map Some imgs)"
    by blast
  then have p: "Promise_all (map (load_image env) (items (uploadedImages s)))
      = Fulfilled (map Some imgs)"
    by (simp only: Promise_all_map_Fulfilled)
  from resize_pass_succeeds[OF assms(3)] obtain adj where
    r: "resize_pass env s (map Some imgs) = Inr (map Some adj)"
    by blast
  from draw_images_succeeds[OF assms(3)] obtain ops where
    d: "draw_images env s adj 0 0 = Inr ops"
    by blast
  from assms(1) p r d show ?thesis
    by (simp add: render_def compose_def those_map_Some split: prod.splits)
qed

subsection \<open>Rounding to binary64\<close>

text \<open>
  A positive rational between \<open>2^-1000\<close> and \<open>2^1000\<close> rounds to a finite number within
  the relative error \<open>2^-53\<close>. For positive extents below \<open>2^25\<close> the two roundings of
  \<open>T * (w / h)\<close> and of \<open>T / (w / h)\<close> therefore stay so close to the exact quotient
  that cutting the result to whole pixels gives the exact quotient rounded down, or one
  less.
\<close>

lemma pow2_powi: "pow2 e = 2 powi e"
  by (simp add: pow2_def power_int_def inverse_eq_divide power_one_over)

lemma pow2_pos: "0 < pow2 e"
  by (simp add: pow2_powi)

lemma pow2_add: "pow2 (a + b) = pow2 a * pow2 b"
  by (simp add: pow2_powi power_int_add)

lemma pow2_mono: "a \<le> b \<Longrightarrow> pow2 a \<le> pow2 b"
  by (simp add: pow2_powi power_int_increasing)

lemma pow2_strict_mono: "a < b \<Longrightarrow> pow2 a < pow2 b"
  by (simp add: pow2_powi power_int_strict_increasing)

lemma pow2_less_iff: "pow2 a < pow2 b \<longleftrightarrow> a < b"
  using pow2_strict_mono[of a b] pow2_mono[of b a] by (auto simp: not_less[symmetric])

lemma pow2_le_iff: "pow2 a \<le> pow2 b \<longleftrightarrow> a \<le> b"
  using pow2_strict_mono[of b a] pow2_mono[of a b] by (auto simp: not_le[symmetric])

lemma pow2_nat: "pow2 (int n) = 2 ^ n"
  by (simp add: pow2_def)

lemma bitlen_pow2_bounds:
  assumes "0 < a"
  shows "pow2 (bitlen a - 1) \<le> of_int a" and "of_int a < pow2 (bitlen a)"
proof -
  from bitlen_bounds[OF assms] have l: "2 ^ nat (bitlen a - 1) \<le> a" and u: "a < 2 ^ nat (bitlen a)"
    by auto
  have p: "1 \<le> bitlen a" using assms by (simp add: bitlen_alt_def)
  from l have "(of_int (2 ^ nat (bitlen a - 1)) :: rat) \<le> of_int a"
    by (simp only: of_int_le_iff)
  with p show "pow2 (bitlen a - 1) \<le> of_int a"
    by (simp add: pow2_def)
  from u have "(of_int a :: rat) < of_int (2 ^ nat (bitlen a))"
    by (simp only: of_int_less_iff)
  with p show "of_int a < pow2 (bitlen a)"
    by (simp add: pow2_def)
qed

text \<open>The overflow test of \<open>round_double\<close> is the comparison with \<open>2^1024\<close>.\<close>

lemma overflow_test:
  assumes "0 < m"
  shows "1024 < bitlen m + e \<longleftrightarrow> 2 ^ 1024 \<le> of_int m * pow2 e"
proof -
  have p: "0 < pow2 e" by (rule pow2_pos)
  have top: "pow2 1024 = (2 :: rat) ^ 1024" using pow2_nat[of 1024] by simp
  have s: "pow2 (1024 - e) * pow2 e = pow2 1024"
    by (simp only: pow2_add[symmetric]) simp
  show ?thesis
  proof
    assume "1024 < bitlen m + e"
    then have "1024 - e \<le> bitlen m - 1" by simp
    then have "pow2 (1024 - e) \<le> pow2 (bitlen m - 1)" by (rule pow2_mono)
    also have "\<dots> \<le> of_int m" using assms by (rule bitlen_pow2_bounds)
    finally have "pow2 (1024 - e) * pow2 e \<le> of_int m * pow2 e"
      using p by (simp add: mult_right_mono)
    then show "2 ^ 1024 \<le> of_int m * pow2 e" by (simp only: s top)
  next
    assume a: "2 ^ 1024 \<le> of_int m * pow2 e"
    show "1024 < bitlen m + e"
    proof (rule ccontr)
      assume "\<not> 1024 < bitlen m + e"
      then have "bitlen m \<le> 1024 - e" by simp
      then have "pow2 (bitlen m) \<le> pow2 (1024 - e)" by (rule pow2_mono)
      moreover have "of_int m < pow2 (bitlen m)" using assms by (rule bitlen_pow2_bounds)
      ultimately have "of_int m < pow2 (1024 - e)" by linarith
      then have "of_int m * pow2 e < pow2 (1024 - e) * pow2 e"
        using p by (simp add: mult_strict_right_mono)
      with a show False by (simp only: s top)
    qed
  qed
qed

lemma floor_log2_bounds:
  assumes "0 < q"
  shows "pow2 (floor_log2 q) \<le> q" and "q < pow2 (floor_log2 q + 1)"
proof -
  obtain a b where ab: "quotient_of q = (a, b)" by (cases "quotient_of q")
  then have b: "0 < b" by (rule quotient_of_denom_pos)
  from ab have q: "q = of_int a / of_int b" by (rule quotient_of_div)
  with assms b have a: "0 < a" by (simp add: zero_less_divide_iff)
  let ?k = "bitlen a - bitlen b"
  have B: "0 < (of_int b :: rat)" using b by simp
  have up: "q < pow2 (?k + 1)"
  proof -
    have "of_int a < pow2 (bitlen a)" using a by (rule bitlen_pow2_bounds)
    also have "pow2 (bitlen a) = pow2 (?k + 1) * pow2 (bitlen b - 1)"
      by (simp add: pow2_add[symmetric])
    also have "\<dots> \<le> pow2 (?k + 1) * of_int b"
      using bitlen_pow2_bounds(1)[OF b] pow2_pos[of "?k + 1"] by simp
    finally show ?thesis using B by (simp add: q pos_divide_less_eq)
  qed
  have lo: "pow2 (?k - 1) \<le> q"
  proof -
    have "pow2 (?k - 1) * of_int b \<le> pow2 (?k - 1) * pow2 (bitlen b)"
      using bitlen_pow2_bounds(2)[OF b] pow2_pos[of "?k - 1"] by simp
    also have "\<dots> = pow2 (bitlen a - 1)"
      by (simp add: pow2_add[symmetric])
    also have "\<dots> \<le> of_int a" using a by (rule bitlen_pow2_bounds)
    finally show ?thesis using B by (simp add: q pos_le_divide_eq)
  qed
  show "pow2 (floor_log2 q) \<le> q"
    using lo by (simp add: floor_log2_def ab Let_def)
  show "q < pow2 (floor_log2 q + 1)"
    using up by (auto simp: floor_log2_def ab Let_def)
qed

lemma round_half_even_close: "\<bar>of_int (round_half_even x) - x\<bar> \<le> 1 / 2"
proof -
  have "of_int \<lfloor>x\<rfloor> \<le> x" "x < of_int \<lfloor>x\<rfloor> + 1" by linarith+
  then show ?thesis
    by (auto simp: round_half_even_def Let_def abs_le_iff)
qed


lemma round_double_close:
  assumes "pow2 (- 1000) \<le> q" and "q \<le> pow2 1000"
  shows "\<exists>r. round_double q = Num r \<and> \<bar>r - q\<bar> \<le> q / 2 ^ 53"
proof -
  have q: "0 < q" using assms(1) pow2_pos[of "- 1000"] by linarith
  define k where "k = floor_log2 q"
  define e where "e = k - 52"
  define x where "x = q / pow2 e"
  define m where "m = round_half_even x"
  have lo: "pow2 k \<le> q" and up: "q < pow2 (k + 1)"
    unfolding k_def using floor_log2_bounds[OF q] by auto
  from lo assms(2) have "pow2 k \<le> pow2 1000" by linarith
  then have k1: "k \<le> 1000" by (simp only: pow2_le_iff)
  from up assms(1) have "pow2 (- 1000) < pow2 (k + 1)" by linarith
  then have k2: "- 1000 < k + 1" by (simp only: pow2_less_iff)
  have e: "max (k - 52) (- 1074) = e" using k2 by (simp add: e_def)
  have pe: "0 < pow2 e" by (rule pow2_pos)
  have "k + 1 = 53 + e" by (simp add: e_def)
  then have "pow2 (k + 1) = pow2 53 * pow2 e"
    by (simp only: pow2_add)
  with up pe have x53: "x < pow2 53"
    by (simp add: x_def pos_divide_less_eq)
  have c: "\<bar>of_int m - x\<bar> \<le> 1 / 2"
    unfolding m_def by (rule round_half_even_close)
  have "pow2 53 = (2 :: rat) ^ 53" using pow2_nat[of 53] by simp
  with x53 c have "of_int m < (2 :: rat) ^ 53 + 1" by linarith
  then have "of_int m < (of_int (2 ^ 53 + 1) :: rat)" by simp
  then have "m < 2 ^ 53 + 1" by (simp only: of_int_less_iff)
  then have "m < 2 ^ nat 54" by simp
  then have "bitlen m \<le> 54" by (simp only: bitlen_le_iff_power) simp
  with k1 have no: "\<not> 1024 < bitlen m + e" by (simp add: e_def)
  have r: "round_double q = Num (of_int m * pow2 e)"
    using q no by (simp add: round_double_def Let_def k_def[symmetric] e m_def x_def)
  have "of_int m * pow2 e - q = (of_int m - x) * pow2 e"
    using pe by (simp add: x_def algebra_simps)
  then have "\<bar>of_int m * pow2 e - q\<bar> = \<bar>of_int m - x\<bar> * pow2 e"
    using pe by (simp add: abs_mult)
  also have "\<dots> \<le> (1 / 2) * pow2 e"
    using c pe by (simp add: mult_right_mono)
  also have "(1 / 2) * pow2 e = pow2 k / 2 ^ 53"
  proof -
    have "k = 52 + e" by (simp add: e_def)
    then have "pow2 k = pow2 52 * pow2 e" by (simp only: pow2_add)
    moreover have "pow2 52 = (2 :: rat) ^ 52" using pow2_nat[of 52] by simp
    ultimately show ?thesis by simp
  qed
  also have "\<dots> \<le> q / 2 ^ 53"
    using lo by (simp add: divide_right_mono)
  finally show ?thesis using r by blast
qed


lemma pow2_small: "pow2 (- 1000) \<le> 1 / 2 ^ 26"
proof -
  have "pow2 (- 1000) \<le> pow2 (- 26)" by (rule pow2_mono) simp
  then show ?thesis by (simp add: pow2_def)
qed

lemma pow2_large: "(2 :: rat) ^ 51 \<le> pow2 1000"
proof -
  have "pow2 51 \<le> pow2 1000" by (rule pow2_mono) simp
  then show ?thesis using pow2_nat[of 51] by simp
qed

lemma floor_close_fraction:
  fixes c :: rat
  assumes "0 < h" and "\<bar>c - of_nat N / of_nat h\<bar> < 1 / of_nat h"
  shows "\<lfloor>of_nat N / of_nat h :: rat\<rfloor> - 1 \<le> \<lfloor>c\<rfloor>"
    and "\<lfloor>c\<rfloor> \<le> \<lfloor>of_nat N / of_nat h :: rat\<rfloor>"
proof -
  let ?E = "of_nat N / of_nat h :: rat"
  have H: "0 < (of_nat h :: rat)" "(1 :: rat) \<le> of_nat h" using assms(1) by simp_all
  have F: "\<lfloor>?E\<rfloor> = int (N div h)" by (simp add: floor_divide_of_nat_eq)
  have "N mod h + 1 \<le> h" using assms(1) by (simp add: Suc_leI)
  then have "(of_nat (N mod h + 1) :: rat) \<le> of_nat h" by (simp only: of_nat_le_iff)
  then have m: "(of_nat (N mod h) :: rat) + 1 \<le> of_nat h" by simp
  have "(of_nat N :: rat) = of_nat (N div h * h + N mod h)" by simp
  also have "\<dots> = of_nat (N div h) * of_nat h + of_nat (N mod h)" by (simp only: of_nat_add of_nat_mult)
  finally have "?E = of_nat (N div h) + of_nat (N mod h) / of_nat h"
    using H by (simp add: field_simps)
  moreover have "of_nat (N mod h) / (of_nat h :: rat) \<le> 1 - 1 / of_nat h"
    using m H by (simp add: field_simps)
  ultimately have u: "?E + 1 / of_nat h \<le> of_nat (N div h) + 1" by linarith
  have inv: "1 / (of_nat h :: rat) \<le> 1" using H by simp
  from assms(2) have c1: "c < ?E + 1 / of_nat h" and c2: "?E - 1 / of_nat h < c"
    by (simp_all add: abs_less_iff)
  from c1 u have "c < of_int (int (N div h) + 1)" by simp
  then have "\<lfloor>c\<rfloor> < int (N div h) + 1" by (simp only: floor_less_iff)
  then show "\<lfloor>c\<rfloor> \<le> \<lfloor>?E\<rfloor>" by (simp add: F)
  have "of_int \<lfloor>?E\<rfloor> \<le> ?E" by (rule of_int_floor_le)
  with c2 inv have "of_int \<lfloor>?E\<rfloor> - 1 \<le> c" by linarith
  then have "of_int (\<lfloor>?E\<rfloor> - 1) \<le> c" by (simp only: of_int_diff of_int_1)
  then show "\<lfloor>?E\<rfloor> - 1 \<le> \<lfloor>c\<rfloor>" by (simp only: le_floor_iff)
qed


lemma ratio_close:
  assumes "0 < w" and "0 < h" and "w < 2 ^ 25" and "h < 2 ^ 25"
  shows "\<exists>a. js_div (js_nat w) (js_nat h) = Num a
     \<and> \<bar>a - of_nat w / of_nat h\<bar> \<le> (of_nat w / of_nat h) / 2 ^ 53"
proof -
  let ?q = "of_nat w / of_nat h :: rat"
  have W: "(1 :: rat) \<le> of_nat w" "(of_nat w :: rat) < 2 ^ 25"
    using assms(1,3) by (simp_all add: Suc_leI flip: of_nat_less_numeral_power_cancel_iff)
  have H: "(1 :: rat) \<le> of_nat h" "(of_nat h :: rat) < 2 ^ 25"
    using assms(2,4) by (simp_all add: Suc_leI flip: of_nat_less_numeral_power_cancel_iff)
  have "1 / 2 ^ 25 \<le> 1 / (of_nat h :: rat)"
    using H by (intro divide_left_mono) simp_all
  also have "\<dots> \<le> ?q" using W H by (intro divide_right_mono) simp_all
  finally have "1 / 2 ^ 25 \<le> ?q" .
  moreover have "(1 :: rat) / 2 ^ 26 \<le> 1 / 2 ^ 25" by simp
  ultimately have lo: "1 / 2 ^ 26 \<le> ?q" by linarith
  have "?q \<le> of_nat w / 1" using W H by (intro divide_left_mono) simp_all
  with W have hi: "?q \<le> 2 ^ 51" by simp
  from lo hi pow2_small pow2_large have "pow2 (- 1000) \<le> ?q" "?q \<le> pow2 1000"
    by linarith+
  from round_double_close[OF this] assms(2) show ?thesis
    by (simp add: js_nat_def)
qed

lemma rounding_twice:
  fixes E p c :: rat
  assumes "0 \<le> E" and "\<bar>p - E\<bar> \<le> 2 * E / 2 ^ 53" and "\<bar>c - p\<bar> \<le> p / 2 ^ 53"
  shows "\<bar>c - E\<bar> \<le> 4 * E / 2 ^ 53"
  using assms unfolding abs_le_iff by simp

lemma scaled_width_close:
  assumes "0 < w" and "0 < h" and "0 < T" and "w < 2 ^ 25" and "h < 2 ^ 25" and "T < 2 ^ 25"
  shows "\<exists>c. js_mul (js_nat T) (js_div (js_nat w) (js_nat h)) = Num c
     \<and> 0 \<le> c
     \<and> \<lfloor>of_nat (w * T) / of_nat h :: rat\<rfloor> - 1 \<le> \<lfloor>c\<rfloor>
     \<and> \<lfloor>c\<rfloor> \<le> \<lfloor>of_nat (w * T) / of_nat h :: rat\<rfloor>"
proof -
  define q :: rat where "q = of_nat w / of_nat h"
  define E :: rat where "E = of_nat (w * T) / of_nat h"
  have W: "(1 :: rat) \<le> of_nat w" "(of_nat w :: rat) \<le> 2 ^ 25"
    using assms(1,4) by (simp_all add: Suc_leI flip: of_nat_less_numeral_power_cancel_iff)
  have H: "(1 :: rat) \<le> of_nat h" "(of_nat h :: rat) \<le> 2 ^ 25"
    using assms(2,5) by (simp_all add: Suc_leI flip: of_nat_less_numeral_power_cancel_iff)
  have T: "(1 :: rat) \<le> of_nat T" "(of_nat T :: rat) \<le> 2 ^ 25"
    using assms(3,6) by (simp_all add: Suc_leI flip: of_nat_less_numeral_power_cancel_iff)
  from ratio_close[OF assms(1,2,4,5)] obtain a where
    a: "js_div (js_nat w) (js_nat h) = Num a" and ea: "\<bar>a - q\<bar> \<le> q / 2 ^ 53"
    unfolding q_def by blast
  have q: "0 < q" using W H by (simp add: q_def)
  have Eq: "E = of_nat T * q" by (simp add: E_def q_def)
  have EN: "E * of_nat h = of_nat w * of_nat T" using H by (simp add: E_def)
  have "of_nat w * of_nat T \<le> 2 ^ 25 * (2 ^ 25 :: rat)"
    using W T by (intro mult_mono) simp_all
  with EN have Eh: "E * of_nat h \<le> 2 ^ 50" by simp
  have "1 * 1 \<le> (of_nat w :: rat) * of_nat T" using W T by (intro mult_mono) simp_all
  with EN have Eh1: "1 \<le> E * of_nat h" by simp
  have E1: "E * 1 \<le> E * of_nat h" and E2: "E * of_nat h \<le> E * 2 ^ 25"
    using H q T by (simp_all add: Eq)
  from E1 Eh have Ehi: "E \<le> 2 ^ 50" by simp
  from E2 Eh1 have Elo: "1 / 2 ^ 25 \<le> E" by simp
  define p where "p = of_nat T * a"
  have pE: "\<bar>p - E\<bar> \<le> E / 2 ^ 53"
  proof -
    have "p - E = of_nat T * (a - q)" by (simp add: p_def Eq algebra_simps)
    then have "\<bar>p - E\<bar> = of_nat T * \<bar>a - q\<bar>" by (simp add: abs_mult)
    also have "\<dots> \<le> of_nat T * (q / 2 ^ 53)"
      using ea T by (intro mult_left_mono) simp_all
    finally show ?thesis by (simp add: Eq)
  qed
  from pE Elo Ehi have plo: "1 / 2 ^ 26 \<le> p" and phi: "p \<le> 2 ^ 51"
    unfolding abs_le_iff by simp_all
  from plo phi pow2_small pow2_large have "pow2 (- 1000) \<le> p" "p \<le> pow2 1000"
    by linarith+
  from round_double_close[OF this] obtain c where
    c: "round_double p = Num c" and ec: "\<bar>c - p\<bar> \<le> p / 2 ^ 53"
    by blast
  have r: "js_mul (js_nat T) (js_div (js_nat w) (js_nat h)) = Num c"
    unfolding a using c by (simp add: js_nat_def p_def)
  from pE Elo have "\<bar>p - E\<bar> \<le> 2 * E / 2 ^ 53" by simp
  with Elo ec have cE: "\<bar>c - E\<bar> \<le> 4 * E / 2 ^ 53"
    by (intro rounding_twice[of E p c]) simp_all
  have "4 * (E * of_nat h) / 2 ^ 53 < 1" using Eh by simp
  then have "4 * E / 2 ^ 53 < 1 / of_nat h" using H by (simp add: field_simps)
  with cE have "\<bar>c - E\<bar> < 1 / of_nat h" by linarith
  moreover from ec plo have "0 \<le> c" unfolding abs_le_iff by simp
  ultimately show ?thesis
    using floor_close_fraction[OF assms(2), of c "w * T"] r unfolding E_def by blast
qed


lemma scaled_height_close:
  assumes "0 < w" and "0 < h" and "0 < T" and "w < 2 ^ 25" and "h < 2 ^ 25" and "T < 2 ^ 25"
  shows "\<exists>c. js_div (js_nat T) (js_div (js_nat w) (js_nat h)) = Num c
     \<and> 0 \<le> c
     \<and> \<lfloor>of_nat (h * T) / of_nat w :: rat\<rfloor> - 1 \<le> \<lfloor>c\<rfloor>
     \<and> \<lfloor>c\<rfloor> \<le> \<lfloor>of_nat (h * T) / of_nat w :: rat\<rfloor>"
proof -
  define q :: rat where "q = of_nat w / of_nat h"
  define E :: rat where "E = of_nat (h * T) / of_nat w"
  have W: "(1 :: rat) \<le> of_nat w" "(of_nat w :: rat) \<le> 2 ^ 25"
    using assms(1,4) by (simp_all add: Suc_leI flip: of_nat_less_numeral_power_cancel_iff)
  have H: "(1 :: rat) \<le> of_nat h" "(of_nat h :: rat) \<le> 2 ^ 25"
    using assms(2,5) by (simp_all add: Suc_leI flip: of_nat_less_numeral_power_cancel_iff)
  have T: "(1 :: rat) \<le> of_nat T" "(of_nat T :: rat) \<le> 2 ^ 25"
    using assms(3,6) by (simp_all add: Suc_leI flip: of_nat_less_numeral_power_cancel_iff)
  from ratio_close[OF assms(1,2,4,5)] obtain a where
    a: "js_div (js_nat w) (js_nat h) = Num a" and ea: "\<bar>a - q\<bar> \<le> q / 2 ^ 53"
    unfolding q_def by blast
  have q: "0 < q" using W H by (simp add: q_def)
  from ea q have apos: "0 < a" unfolding abs_le_iff by simp
  have Eq: "E = of_nat T / q" using W H by (simp add: E_def q_def)
  have EN: "E * of_nat w = of_nat h * of_nat T" using W by (simp add: E_def)
  have "of_nat h * of_nat T \<le> 2 ^ 25 * (2 ^ 25 :: rat)"
    using H T by (intro mult_mono) simp_all
  with EN have Ew: "E * of_nat w \<le> 2 ^ 50" by simp
  have "1 * 1 \<le> (of_nat h :: rat) * of_nat T" using H T by (intro mult_mono) simp_all
  with EN have Ew1: "1 \<le> E * of_nat w" by simp
  have Epos: "0 < E" using W H T by (simp add: E_def)
  have E1: "E * 1 \<le> E * of_nat w" and E2: "E * of_nat w \<le> E * 2 ^ 25"
    using W Epos by simp_all
  from E1 Ew have Ehi: "E \<le> 2 ^ 50" by simp
  from E2 Ew1 have Elo: "1 / 2 ^ 25 \<le> E" by simp
  define p where "p = of_nat T / a"
  have ppos: "0 < p" using T apos by (simp add: p_def)
  have pE: "\<bar>p - E\<bar> \<le> p / 2 ^ 53"
  proof -
    have "p - E = p * ((q - a) / q)"
      using apos q by (simp add: p_def Eq field_simps)
    then have "\<bar>p - E\<bar> = p * (\<bar>a - q\<bar> / q)"
      using ppos q by (simp add: abs_mult abs_minus_commute)
    also have "\<bar>a - q\<bar> / q \<le> 1 / 2 ^ 53"
      using ea q by (simp add: pos_divide_le_eq)
    finally show ?thesis using ppos by (simp add: mult_left_mono)
  qed
  from pE Elo Ehi have plo: "1 / 2 ^ 26 \<le> p" and phi: "p \<le> 2 ^ 51"
    and pE2: "\<bar>p - E\<bar> \<le> 2 * E / 2 ^ 53"
    unfolding abs_le_iff by simp_all
  from plo phi pow2_small pow2_large have "pow2 (- 1000) \<le> p" "p \<le> pow2 1000"
    by linarith+
  from round_double_close[OF this] obtain c where
    c: "round_double p = Num c" and ec: "\<bar>c - p\<bar> \<le> p / 2 ^ 53"
    by blast
  have r: "js_div (js_nat T) (js_div (js_nat w) (js_nat h)) = Num c"
    unfolding a using c apos by (simp add: js_nat_def p_def)
  from Elo pE2 ec have cE: "\<bar>c - E\<bar> \<le> 4 * E / 2 ^ 53"
    by (intro rounding_twice[of E p c]) simp_all
  have "4 * (E * of_nat w) / 2 ^ 53 < 1" using Ew by simp
  then have "4 * E / 2 ^ 53 < 1 / of_nat w" using W by (simp add: field_simps)
  with cE have "\<bar>c - E\<bar> < 1 / of_nat w" by linarith
  moreover from ec plo have "0 \<le> c" unfolding abs_le_iff by simp
  ultimately show ?thesis
    using floor_close_fraction[OF assms(1), of c "h * T"] r unfolding E_def by blast
qed

subsection \<open>The example runs\<close>

lemma ratio_a: "js_div (js_nat 100) (js_nat 50) = js_nat 2"
  by code_simp

lemma ratio_b: "js_div (js_nat 80) (js_nat 60) = Num (6004799503160661 / 4503599627370496)"
  by code_simp

lemma ratio_c: "js_div (js_nat 113) (js_nat 100) = Num (1272266894732165 / 1125899906842624)"
  by code_simp

lemma ratio_d: "js_div (js_nat 200) (js_nat 100) = js_nat 2"
  by code_simp

lemma scaled_a: "js_mul (js_nat 60) (js_nat 2) = js_nat 120"
  by code_simp

lemma scaled_b: "js_mul (js_nat 60) (Num (6004799503160661 / 4503599627370496)) = js_nat 80"
  by code_simp

lemma scaled_c:
  "js_mul (js_nat 100) (Num (1272266894732165 / 1125899906842624))
     = Num (7951668092076031 / 70368744177664)"
  by code_simp

lemma scaled_d: "js_mul (js_nat 100) (js_nat 2) = js_nat 200"
  by code_simp

lemma ratio_v1: "js_div (js_nat 80) (js_nat 2) = js_nat 40"
  by code_simp

lemma ratio_v2: "js_div (js_nat 80) (Num (6004799503160661 / 4503599627370496)) = js_nat 60"
  by code_simp

lemma ratio_e: "js_div (js_nat 1) (js_nat 32768) = Num (1 / 32768)"
  unfolding js_nat_def of_nat_numeral of_nat_1 by code_simp

lemma scaled_e: "js_mul (js_nat 32768) (Num (1 / 32768)) = js_nat 1"
  unfolding js_nat_def of_nat_numeral of_nat_1 by code_simp

lemma ratio_f: "js_div (js_nat 32768) (js_nat 1) = js_nat 32768"
  unfolding js_nat_def of_nat_numeral of_nat_1 by code_simp

lemma scaled_f: "js_mul (js_nat 32768) (js_nat 32768) = js_nat 1073741824"
  unfolding js_nat_def of_nat_numeral of_nat_1 by code_simp

lemma ratio_g: "js_div (js_nat 46341) (js_nat 1) = js_nat 46341"
  unfolding js_nat_def of_nat_numeral of_nat_1 by code_simp

lemma scaled_g: "js_mul (js_nat 46341) (js_nat 46341) = js_nat 2147488281"
  unfolding js_nat_def of_nat_numeral of_nat_1 by code_simp

lemma ratio_h:
  "js_div (js_nat 1) (js_nat 46341) = Num (1592261200553251 / 73786976294838206464)"
  unfolding js_nat_def of_nat_numeral of_nat_1 by code_simp

lemma scaled_h:
  "js_mul (js_nat 46341) (Num (1592261200553251 / 73786976294838206464)) = js_nat 1"
  unfolding js_nat_def of_nat_numeral of_nat_1 by code_simp

lemma pixels_c: "canvas_extent 300 (Num (7951668092076031 / 70368744177664)) = 112"
proof -
  have "\<lfloor>7951668092076031 / 70368744177664 :: rat\<rfloor> = 112"
    by (simp add: floor_eq_iff)
  then show ?thesis by (simp add: canvas_extent_Num)
qed

lemmas example_defs =
  example_env_def example_env_no_resize_def example_env_throwing_def example_state_def
  example_rounding_def example_single_def example_env_wide_def example_wide_def
  example_env_stalled_def

lemmas render_defs =
  render_def load_image_def compose_def resize_pass_def resize_image_def target_size_def
  canvas_size_def Math_max_def Math_min_def fill_background_def fill_color_def enumerate_eq_zip

lemmas float_facts =
  ratio_a ratio_b ratio_c ratio_d ratio_v1 ratio_v2 scaled_a scaled_b scaled_c scaled_d pixels_c
  ratio_e ratio_f ratio_g ratio_h scaled_e scaled_f scaled_g scaled_h
  ratio_e [unfolded One_nat_def] ratio_f [unfolded One_nat_def] ratio_g [unfolded One_nat_def]
  ratio_h [unfolded One_nat_def] scaled_e [unfolded One_nat_def] scaled_h [unfolded One_nat_def]
  canvas_extent_js_nat canvas_extent_fallback

lemma example_two: "2 \<le> length (items (uploadedImages example_state))"
  by (simp add: example_state_def)

lemma render_example:
  "render example_env example_state = Some (Inr (CanvasEl 180 60
     [DrawImage (ImageEl ''data:a'' 100 50) 0 0, DrawImage (ImageEl ''data:b'' 80 60) 100 0]))"
  by (simp add: example_defs render_defs float_facts)

lemma resize_pass_example_max:
  "resize_pass example_env (example_state\<lparr>adjustSizeSelected := ''Max''\<rparr>)
     (map Some [ImageEl ''data:a'' 100 50, ImageEl ''data:b'' 80 60])
   = Inr [Some (CanvasEl 120 60
            [DrawImageScaled (ImageEl ''data:a'' 100 50) 0 0 (js_nat 120) (js_nat 60)]),
          Some (CanvasEl 80 60
            [DrawImageScaled (ImageEl ''data:b'' 80 60) 0 0 (js_nat 80) (js_nat 60)])]"
  by (simp add: example_defs render_defs float_facts)

lemma resize_pass_example_vertical:
  "resize_pass example_env
     (example_state\<lparr>adjustSizeSelected := ''Min'', layoutSelected := ''Vertical''\<rparr>)
     (map Some [ImageEl ''data:a'' 100 50, ImageEl ''data:b'' 80 60])
   = Inr [Some (CanvasEl 80 40
            [DrawImageScaled (ImageEl ''data:a'' 100 50) 0 0 (js_nat 80) (js_nat 40)]),
          Some (CanvasEl 80 60
            [DrawImageScaled (ImageEl ''data:b'' 80 60) 0 0 (js_nat 80) (js_nat 60)])]"
  by (simp add: example_defs render_defs float_facts)

lemma resize_pass_example_no_context:
  "resize_pass example_env_no_resize (example_state\<lparr>adjustSizeSelected := ''Max''\<rparr>)
     (map Some [ImageEl ''data:a'' 100 50, ImageEl ''data:b'' 80 60])
   = Inr [Some (ImageEl ''data:a'' 100 50), Some (ImageEl ''data:b'' 80 60)]"
  by (simp add: example_defs render_defs)

lemma render_example_rounding:
  "render example_env example_rounding =
     Some (Inr (CanvasEl 312 100
       [DrawImage (CanvasEl 112 100
          [DrawImageScaled (ImageEl ''data:c'' 113 100) 0 0
             (Num (7951668092076031 / 70368744177664)) (js_nat 100)]) 0 0,
        DrawImage (CanvasEl 200 100
          [DrawImageScaled (ImageEl ''data:d'' 200 100) 0 0 (js_nat 200) (js_nat 100)]) 112 0]))"
  by (simp add: example_defs render_defs float_facts)

lemma render_example_no_context:
  "render example_env_no_resize (example_state\<lparr>adjustSizeSelected := ''Max''\<rparr>) =
     Some (Inr (CanvasEl 180 60
       [DrawImage (ImageEl ''data:a'' 100 50) 0 0, DrawImage (ImageEl ''data:b'' 80 60) 100 0]))"
  by (simp add: example_defs render_defs float_facts)

lemma example_wide_three: "2 \<le> length (items (uploadedImages example_wide))"
  by (simp add: example_wide_def)

lemma load_example:
  "Promise_all (map (load_image example_env) (items (uploadedImages example_state)))
     = Fulfilled (map Some [ImageEl ''data:a'' 100 50, ImageEl ''data:b'' 80 60])"
  by (simp add: example_defs load_image_def)

lemma load_example_wide:
  "Promise_all (map (load_image example_env_wide) (items (uploadedImages example_wide)))
     = Fulfilled (map Some [ImageEl ''data:e'' 1 32768, ImageEl ''data:f'' 32768 1,
         ImageEl ''data:f'' 32768 1])"
  by (simp add: example_defs load_image_def)

lemma resize_pass_example_wide:
  "resize_pass example_env_wide example_wide
     (map Some [ImageEl ''data:e'' 1 32768, ImageEl ''data:f'' 32768 1, ImageEl ''data:f'' 32768 1])
   = Inr (map Some
       [CanvasEl 1 32768
          [DrawImageScaled (ImageEl ''data:e'' 1 32768) 0 0 (js_nat 1) (js_nat 32768)],
        CanvasEl 1073741824 32768
          [DrawImageScaled (ImageEl ''data:f'' 32768 1) 0 0 (js_nat 1073741824) (js_nat 32768)],
        CanvasEl 1073741824 32768
          [DrawImageScaled (ImageEl ''data:f'' 32768 1) 0 0 (js_nat 1073741824) (js_nat 32768)]])"
  by (simp add: example_defs render_defs float_facts Let_def)

lemma render_example_wide:
  "render example_env_wide example_wide =
     Some (Inr (CanvasEl 300 32768
       [DrawImage (CanvasEl 1 32768
          [DrawImageScaled (ImageEl ''data:e'' 1 32768) 0 0 (js_nat 1) (js_nat 32768)]) 0 0,
        DrawImage (CanvasEl 1073741824 32768
          [DrawImageScaled (ImageEl ''data:f'' 32768 1) 0 0 (js_nat 1073741824) (js_nat 32768)])
          1 0,
        DrawImage (CanvasEl 1073741824 32768
          [DrawImageScaled (ImageEl ''data:f'' 32768 1) 0 0 (js_nat 1073741824) (js_nat 32768)])
          1073741825 0]))"
  by (simp add: example_defs render_defs float_facts Let_def)

lemma resize_pass_example_fallback:
  "resize_pass example_env (example_state\<lparr>adjustSizeSelected := ''Max''\<rparr>)
     (map Some [ImageEl ''data:g'' 46341 1, ImageEl ''data:h'' 1 46341])
   = Inr [Some (CanvasEl 300 46341
            [DrawImageScaled (ImageEl ''data:g'' 46341 1) 0 0 (js_nat 2147488281) (js_nat 46341)]),
          Some (CanvasEl 1 46341
            [DrawImageScaled (ImageEl ''data:h'' 1 46341) 0 0 (js_nat 1) (js_nat 46341)])]"
  by (simp add: example_defs render_defs float_facts Let_def)

lemma splice1_example_single: "items (splice1 (uploadedImages example_single) 0) = []"
  by (simp add: example_single_def splice1_def)

lemma render_example_color:
  "render example_env (example_state\<lparr>backgroundSelected := ''Color'', backgroundColor := ''ff0000''\<rparr>)
     = Some (Inr (CanvasEl 180 60
         [SetFillStyle ''#ff0000'', FillRect 0 0 180 60,
          DrawImage (ImageEl ''data:a'' 100 50) 0 0, DrawImage (ImageEl ''data:b'' 80 60) 100 0]))"
  by (simp add: example_defs render_defs float_facts)

lemma show_nat_example: "show_nat (now example_env) = ''1700000000000''"
  by (simp add: example_env_def show_nat.simps digit_char_def)

subsection \<open>Exchanging two elements\<close>

lemma swap_slots:
  assumes "i < length xs" and "j < length xs"
  shows "map slot_value (xs[i := slot_of (slot_value (xs ! j)), j := slot_of (slot_value (xs ! i))])
       = (map slot_value xs)[i := map slot_value xs ! j, j := map slot_value xs ! i]"
  using assms by (simp add: map_update slot_value_slot_of)

lemma moveImageUp_items:
  assumes "0 < index" and "index < int (length (items (uploadedImages s)))"
  shows "items (uploadedImages (outcome_state (moveImageUp env s index)))
       = (items (uploadedImages s))
           [nat index := slot_of (slot_value (items (uploadedImages s) ! (nat index - 1))),
            nat index - 1 := slot_of (slot_value (items (uploadedImages s) ! nat index))]"
proof -
  from assms have "nat index < length (items (uploadedImages s))"
    and "nat (index - 1) = nat index - 1"
    and "nat index - 1 < length (items (uploadedImages s))"
    and "\<not> index - 1 < 0"
    by auto
  with assms show ?thesis
    by (simp add: moveImageUp_def Let_def stitchImages_uploadedImages js_get_def js_set_def)
qed

lemma moveImageDown_items:
  assumes "0 \<le> index" and "index < int (length (items (uploadedImages s))) - 1"
  shows "items (uploadedImages (outcome_state (moveImageDown env s index)))
       = (items (uploadedImages s))
           [nat index := slot_of (slot_value (items (uploadedImages s) ! (nat index + 1))),
            nat index + 1 := slot_of (slot_value (items (uploadedImages s) ! nat index))]"
proof -
  from assms have "nat index < length (items (uploadedImages s))"
    and "nat (index + 1) = nat index + 1"
    and "nat index + 1 < length (items (uploadedImages s))"
    and "\<not> index + 1 < 0"
    by auto
  with assms show ?thesis
    by (simp add: moveImageDown_def Let_def stitchImages_uploadedImages js_get_def js_set_def)
qed

section \<open>Claims\<close>

text \<open>
  C1, as the code has it. A composite of at least two images that reaches its output
  canvas asks for these bounds, over the images as the resize pass left them: side by side
  (\<open>layoutSelected = "Horizontal"\<close>) the sum of their widths by the greatest of their
  heights; stacked (any other layout) the greatest width by the sum of the heights. With
  \<open>adjustSizeSelected = "None"\<close> these are the loaded images themselves. The canvas takes
  a bound of at most 2147483647 as it is; a greater one below \<open>2^32\<close> leaves it at its
  default, 300 for the width and 150 for the height.
\<close>

theorem canvas_bounds:
  assumes "2 \<le> length (items (uploadedImages s))"
    and "render env s = Some (Inr canvas)"
  shows "\<exists>images adjusted W H.
      Promise_all (map (load_image env) (items (uploadedImages s))) = Fulfilled (map Some images)
    \<and> resize_pass env s (map Some images) = Inr (map Some adjusted)
    \<and> length adjusted = length (items (uploadedImages s))
    \<and> (adjustSizeSelected s = ''None'' \<longrightarrow> adjusted = images)
    \<and> (layoutSelected s = ''Horizontal'' \<longrightarrow>
          W = sum_list (map dwidth adjusted) \<and> H = Max (set (map dheight adjusted)))
    \<and> (layoutSelected s \<noteq> ''Horizontal'' \<longrightarrow>
          W = Max (set (map dwidth adjusted)) \<and> H = sum_list (map dheight adjusted))
    \<and> dwidth canvas = canvas_extent 300 (js_nat W)
    \<and> dheight canvas = canvas_extent 150 (js_nat H)
    \<and> (W \<le> 2147483647 \<longrightarrow> dwidth canvas = W)
    \<and> (H \<le> 2147483647 \<longrightarrow> dheight canvas = H)
    \<and> (2147483647 < W \<and> W < 2 ^ 32 \<longrightarrow> dwidth canvas = 300)
    \<and> (2147483647 < H \<and> H < 2 ^ 32 \<longrightarrow> dheight canvas = 150)"
proof -
  from render_success[OF assms(2)] obtain images adj where
    p: "Promise_all (map (load_image env) (items (uploadedImages s))) = Fulfilled (map Some images)"
    and li: "length images = length (items (uploadedImages s))"
    and r: "resize_pass env s (map Some images) = Inr (map Some adj)"
    and la: "length adj = length images"
    and cv: "canvas = CanvasEl (canvas_extent 300 (js_nat (fst (canvas_size s adj))))
        (canvas_extent 150 (js_nat (snd (canvas_size s adj))))
        (fill_background s (fst (canvas_size s adj)) (snd (canvas_size s adj)) @
         map (\<lambda>i. if layoutSelected s = ''Horizontal''
                 then DrawImage (adj ! i) (sum_list (map dwidth (take i adj))) 0
                 else DrawImage (adj ! i) 0 (sum_list (map dheight (take i adj))))
           [0..<length adj])"
    by blast
  define W where "W = fst (canvas_size s adj)"
  define H where "H = snd (canvas_size s adj)"
  from li la have len: "length adj = length (items (uploadedImages s))" by simp
  have n: "adjustSizeSelected s = ''None'' \<longrightarrow> adj = images"
    using r by (auto simp: resize_pass_def map_Some_eq)
  have h: "layoutSelected s = ''Horizontal'' \<longrightarrow>
      W = sum_list (map dwidth adj) \<and> H = Max (set (map dheight adj))"
    by (simp add: W_def H_def canvas_size_def foldl_add_sum_list Math_max_def)
  have v: "layoutSelected s \<noteq> ''Horizontal'' \<longrightarrow>
      W = Max (set (map dwidth adj)) \<and> H = sum_list (map dheight adj)"
    by (simp add: W_def H_def canvas_size_def foldl_add_sum_list Math_max_def)
  have dw: "dwidth canvas = canvas_extent 300 (js_nat W)"
    and dh: "dheight canvas = canvas_extent 150 (js_nat H)"
    by (simp_all add: cv W_def H_def)
  have e: "W \<le> 2147483647 \<longrightarrow> dwidth canvas = W" "H \<le> 2147483647 \<longrightarrow> dheight canvas = H"
    by (simp_all add: dw dh canvas_extent_js_nat)
  have f: "2147483647 < W \<and> W < 2 ^ 32 \<longrightarrow> dwidth canvas = 300"
    "2147483647 < H \<and> H < 2 ^ 32 \<longrightarrow> dheight canvas = 150"
    by (simp_all add: dw dh canvas_extent_fallback)
  from p r len n h v dw dh e f show ?thesis
    by blast
qed

theorem canvas_bounds_witness:
  "2 \<le> length (items (uploadedImages example_state))
   \<and> render example_env example_state = Some (Inr (CanvasEl 180 60
         [DrawImage (ImageEl ''data:a'' 100 50) 0 0, DrawImage (ImageEl ''data:b'' 80 60) 100 0]))
   \<and> (\<exists>images adjusted.
         Promise_all (map (load_image example_env) (items (uploadedImages example_state)))
           = Fulfilled (map Some images)
       \<and> resize_pass example_env example_state (map Some images) = Inr (map Some adjusted)
       \<and> length adjusted = 2
       \<and> adjusted = images
       \<and> sum_list (map dwidth adjusted) \<le> 2147483647
       \<and> 180 = sum_list (map dwidth adjusted)
       \<and> Max (set (map dheight adjusted)) \<le> 2147483647
       \<and> 60 = Max (set (map dheight adjusted)))
   \<and> 2 \<le> length (items (uploadedImages example_wide))
   \<and> render example_env_wide example_wide =
       Some (Inr (CanvasEl 300 32768
         [DrawImage (CanvasEl 1 32768
            [DrawImageScaled (ImageEl ''data:e'' 1 32768) 0 0 (js_nat 1) (js_nat 32768)]) 0 0,
          DrawImage (CanvasEl 1073741824 32768
            [DrawImageScaled (ImageEl ''data:f'' 32768 1) 0 0 (js_nat 1073741824) (js_nat 32768)])
            1 0,
          DrawImage (CanvasEl 1073741824 32768
            [DrawImageScaled (ImageEl ''data:f'' 32768 1) 0 0 (js_nat 1073741824) (js_nat 32768)])
            1073741825 0]))
   \<and> (\<exists>images adjusted.
         Promise_all (map (load_image example_env_wide) (items (uploadedImages example_wide)))
           = Fulfilled (map Some images)
       \<and> resize_pass example_env_wide example_wide (map Some images) = Inr (map Some adjusted)
       \<and> length adjusted = 3
       \<and> 2147483647 < sum_list (map dwidth adjusted)
       \<and> sum_list (map dwidth adjusted) < 2 ^ 32
       \<and> Max (set (map dheight adjusted)) \<le> 2147483647
       \<and> 32768 = Max (set (map dheight adjusted)))"
proof -
  have l: "layoutSelected example_state = ''Horizontal''"
    and a: "adjustSizeSelected example_state = ''None''"
    and n: "length (items (uploadedImages example_state)) = 2"
    and l': "layoutSelected example_wide = ''Horizontal''"
    and n': "length (items (uploadedImages example_wide)) = 3"
    by (simp_all add: example_state_def example_wide_def)
  have first: "\<exists>images adjusted.
         Promise_all (map (load_image example_env) (items (uploadedImages example_state)))
           = Fulfilled (map Some images)
       \<and> resize_pass example_env example_state (map Some images) = Inr (map Some adjusted)
       \<and> length adjusted = 2
       \<and> adjusted = images
       \<and> sum_list (map dwidth adjusted) \<le> 2147483647
       \<and> 180 = sum_list (map dwidth adjusted)
       \<and> Max (set (map dheight adjusted)) \<le> 2147483647
       \<and> 60 = Max (set (map dheight adjusted))"
  proof -
    from canvas_bounds[OF example_two render_example] obtain images adjusted W H where
      p: "Promise_all (map (load_image example_env) (items (uploadedImages example_state)))
           = Fulfilled (map Some images)"
      and r: "resize_pass example_env example_state (map Some images) = Inr (map Some adjusted)"
      and len: "length adjusted = length (items (uploadedImages example_state))"
      and ai: "adjustSizeSelected example_state = ''None'' \<longrightarrow> adjusted = images"
      and wh: "layoutSelected example_state = ''Horizontal'' \<longrightarrow>
          W = sum_list (map dwidth adjusted) \<and> H = Max (set (map dheight adjusted))"
      and w: "W \<le> 2147483647 \<longrightarrow> dwidth (CanvasEl 180 60
         [DrawImage (ImageEl ''data:a'' 100 50) 0 0, DrawImage (ImageEl ''data:b'' 80 60) 100 0]) = W"
      and h: "H \<le> 2147483647 \<longrightarrow> dheight (CanvasEl 180 60
         [DrawImage (ImageEl ''data:a'' 100 50) 0 0, DrawImage (ImageEl ''data:b'' 80 60) 100 0]) = H"
      by blast
    from p have "Fulfilled (map Some images)
        = Fulfilled (map Some [ImageEl ''data:a'' 100 50, ImageEl ''data:b'' 80 60])"
      by (simp only: load_example)
    then have i: "images = [ImageEl ''data:a'' 100 50, ImageEl ''data:b'' 80 60]"
      by (simp only: promise.inject map_Some_eq)
    from ai a have adj: "adjusted = images" by simp
    have s: "sum_list (map dwidth adjusted) \<le> 2147483647"
      "Max (set (map dheight adjusted)) \<le> 2147483647"
      by (simp_all add: adj i)
    from wh l have "W = sum_list (map dwidth adjusted)" "H = Max (set (map dheight adjusted))"
      by simp_all
    with w h s have "180 = sum_list (map dwidth adjusted)" "60 = Max (set (map dheight adjusted))"
      by simp_all
    with p r len n adj s show ?thesis by auto
  qed
  have second: "\<exists>images adjusted.
         Promise_all (map (load_image example_env_wide) (items (uploadedImages example_wide)))
           = Fulfilled (map Some images)
       \<and> resize_pass example_env_wide example_wide (map Some images) = Inr (map Some adjusted)
       \<and> length adjusted = 3
       \<and> 2147483647 < sum_list (map dwidth adjusted)
       \<and> sum_list (map dwidth adjusted) < 2 ^ 32
       \<and> Max (set (map dheight adjusted)) \<le> 2147483647
       \<and> 32768 = Max (set (map dheight adjusted))"
  proof -
    from canvas_bounds[OF example_wide_three render_example_wide] obtain images adjusted W H where
      p: "Promise_all (map (load_image example_env_wide) (items (uploadedImages example_wide)))
           = Fulfilled (map Some images)"
      and r: "resize_pass example_env_wide example_wide (map Some images)
           = Inr (map Some adjusted)"
      and len: "length adjusted = length (items (uploadedImages example_wide))"
      and wh: "layoutSelected example_wide = ''Horizontal'' \<longrightarrow>
          W = sum_list (map dwidth adjusted) \<and> H = Max (set (map dheight adjusted))"
      and h: "H \<le> 2147483647 \<longrightarrow> dheight (CanvasEl 300 32768
         [DrawImage (CanvasEl 1 32768
            [DrawImageScaled (ImageEl ''data:e'' 1 32768) 0 0 (js_nat 1) (js_nat 32768)]) 0 0,
          DrawImage (CanvasEl 1073741824 32768
            [DrawImageScaled (ImageEl ''data:f'' 32768 1) 0 0 (js_nat 1073741824) (js_nat 32768)])
            1 0,
          DrawImage (CanvasEl 1073741824 32768
            [DrawImageScaled (ImageEl ''data:f'' 32768 1) 0 0 (js_nat 1073741824) (js_nat 32768)])
            1073741825 0]) = H"
      by blast
    from p have "Fulfilled (map Some images)
        = Fulfilled (map Some [ImageEl ''data:e'' 1 32768, ImageEl ''data:f'' 32768 1,
            ImageEl ''data:f'' 32768 1])"
      by (simp only: load_example_wide)
    then have i: "images = [ImageEl ''data:e'' 1 32768, ImageEl ''data:f'' 32768 1,
        ImageEl ''data:f'' 32768 1]"
      by (simp only: promise.inject map_Some_eq)
    from r have "(Inr (map Some adjusted) :: js_error + drawable option list) = Inr (map Some
       [CanvasEl 1 32768
          [DrawImageScaled (ImageEl ''data:e'' 1 32768) 0 0 (js_nat 1) (js_nat 32768)],
        CanvasEl 1073741824 32768
          [DrawImageScaled (ImageEl ''data:f'' 32768 1) 0 0 (js_nat 1073741824) (js_nat 32768)],
        CanvasEl 1073741824 32768
          [DrawImageScaled (ImageEl ''data:f'' 32768 1) 0 0 (js_nat 1073741824) (js_nat 32768)]])"
      unfolding i by (simp only: resize_pass_example_wide)
    then have adj: "adjusted =
       [CanvasEl 1 32768
          [DrawImageScaled (ImageEl ''data:e'' 1 32768) 0 0 (js_nat 1) (js_nat 32768)],
        CanvasEl 1073741824 32768
          [DrawImageScaled (ImageEl ''data:f'' 32768 1) 0 0 (js_nat 1073741824) (js_nat 32768)],
        CanvasEl 1073741824 32768
          [DrawImageScaled (ImageEl ''data:f'' 32768 1) 0 0 (js_nat 1073741824) (js_nat 32768)]]"
      by (simp only: sum.inject map_Some_eq)
    have s: "2147483647 < sum_list (map dwidth adjusted)"
      "sum_list (map dwidth adjusted) < 2 ^ 32"
      "Max (set (map dheight adjusted)) \<le> 2147483647"
      by (simp_all add: adj)
    from wh l' have "H = Max (set (map dheight adjusted))" by simp
    with h s have "32768 = Max (set (map dheight adjusted))" by simp
    with p r len n' s show ?thesis by auto
  qed
  from example_two render_example first example_wide_three render_example_wide second
  show ?thesis by (intro conjI)
qed

text \<open>
  The output is not always as wide as the images together: 1 x 32768, 32768 x 1 and
  32768 x 1 side by side under "Max" are brought to a height of 32768 and to widths of 1,
  1073741824 and 1073741824, together 2147483649; the output canvas is 300 wide, and the
  third image is drawn at 1073741825, outside it.
\<close>

theorem canvas_bounds_counterexample:
  "2 \<le> length (items (uploadedImages example_wide))
   \<and> layoutSelected example_wide = ''Horizontal''
   \<and> render example_env_wide example_wide =
       Some (Inr (CanvasEl 300 32768
         [DrawImage (CanvasEl 1 32768
            [DrawImageScaled (ImageEl ''data:e'' 1 32768) 0 0 (js_nat 1) (js_nat 32768)]) 0 0,
          DrawImage (CanvasEl 1073741824 32768
            [DrawImageScaled (ImageEl ''data:f'' 32768 1) 0 0 (js_nat 1073741824) (js_nat 32768)])
            1 0,
          DrawImage (CanvasEl 1073741824 32768
            [DrawImageScaled (ImageEl ''data:f'' 32768 1) 0 0 (js_nat 1073741824) (js_nat 32768)])
            1073741825 0]))
   \<and> sum_list (map dwidth
       [CanvasEl 1 32768
          [DrawImageScaled (ImageEl ''data:e'' 1 32768) 0 0 (js_nat 1) (js_nat 32768)],
        CanvasEl 1073741824 32768
          [DrawImageScaled (ImageEl ''data:f'' 32768 1) 0 0 (js_nat 1073741824) (js_nat 32768)],
        CanvasEl 1073741824 32768
          [DrawImageScaled (ImageEl ''data:f'' 32768 1) 0 0 (js_nat 1073741824) (js_nat 32768)]])
     = 2147483649
   \<and> (300 :: nat) \<noteq> 2147483649"
  using render_example_wide example_wide_three
  by (simp add: example_wide_def example_state_def)

text \<open>
  C2, as the code has it. With \<open>adjustSizeSelected = "None"\<close> the resize pass returns
  every image as loaded, and so it does under any policy for an image whose resize canvas
  yields no context. Under "Min" (or "Max"), an image whose resize canvas has a context
  becomes a canvas sized from two numbers: across the layout (height when side by side,
  width when stacked) the least (or greatest) such extent \<open>T\<close> of the loaded images, and
  along the layout the number the code computes in double precision, \<open>T * (w / h)\<close> side
  by side and \<open>T / (w / h)\<close> stacked for an image of \<open>w\<close> by \<open>h\<close>. The canvas takes each
  number cut to a whole number of pixels and reduced modulo \<open>2^32\<close>, and its default
  (300 wide, 150 high) when that is above 2147483647. So the extent across the layout is
  \<open>T\<close> up to 2147483647; and for
  positive extents below \<open>2^25\<close> whose exact scaled extent (\<open>w * T / h\<close>, or \<open>h * T / w\<close>)
  is below 2147483648, the extent along the layout is that exact extent rounded down to a
  whole pixel, or one pixel less.
\<close>

theorem resized_extents:
  fixes images :: "drawable list" and i :: nat and s :: state
  defines "w \<equiv> dwidth (images ! i)" and "h \<equiv> dheight (images ! i)"
    and "T \<equiv> (if adjustSizeSelected s = ''Min''
               then Min (set (map (if layoutSelected s = ''Horizontal'' then dheight else dwidth) images))
               else Max (set (map (if layoutSelected s = ''Horizontal'' then dheight else dwidth) images)))"
  assumes "resize_pass env s (map Some images) = Inr adjusted" and "i < length images"
  shows "(adjustSizeSelected s = ''None'' \<or> \<not> resizeContext env i \<longrightarrow>
            adjusted ! i = Some (images ! i))
   \<and> ((adjustSizeSelected s = ''Min'' \<or> adjustSizeSelected s = ''Max'') \<and> resizeContext env i \<longrightarrow>
        (\<exists>c. adjusted ! i = Some c
          \<and> (layoutSelected s = ''Horizontal'' \<longrightarrow>
                dheight c = canvas_extent 150 (js_nat T)
              \<and> dwidth c = canvas_extent 300 (js_mul (js_nat T) (js_div (js_nat w) (js_nat h)))
              \<and> (T \<le> 2147483647 \<longrightarrow> dheight c = T)
              \<and> (0 < w \<and> 0 < h \<and> 0 < T \<and> w < 2 ^ 25 \<and> h < 2 ^ 25 \<and> T < 2 ^ 25
                  \<and> \<lfloor>of_nat (w * T) / of_nat h :: rat\<rfloor> \<le> 2147483647 \<longrightarrow>
                    \<lfloor>of_nat (w * T) / of_nat h :: rat\<rfloor> - 1 \<le> int (dwidth c)
                  \<and> int (dwidth c) \<le> \<lfloor>of_nat (w * T) / of_nat h :: rat\<rfloor>))
          \<and> (layoutSelected s \<noteq> ''Horizontal'' \<longrightarrow>
                dwidth c = canvas_extent 300 (js_nat T)
              \<and> dheight c = canvas_extent 150 (js_div (js_nat T) (js_div (js_nat w) (js_nat h)))
              \<and> (T \<le> 2147483647 \<longrightarrow> dwidth c = T)
              \<and> (0 < w \<and> 0 < h \<and> 0 < T \<and> w < 2 ^ 25 \<and> h < 2 ^ 25 \<and> T < 2 ^ 25
                  \<and> \<lfloor>of_nat (h * T) / of_nat w :: rat\<rfloor> \<le> 2147483647 \<longrightarrow>
                    \<lfloor>of_nat (h * T) / of_nat w :: rat\<rfloor> - 1 \<le> int (dheight c)
                  \<and> int (dheight c) \<le> \<lfloor>of_nat (h * T) / of_nat w :: rat\<rfloor>))))"
proof (intro conjI impI)
  assume a: "adjustSizeSelected s = ''None'' \<or> \<not> resizeContext env i"
  show "adjusted ! i = Some (images ! i)"
  proof (cases "adjustSizeSelected s = ''None''")
    case True
    with assms show ?thesis by (auto simp: resize_pass_def)
  next
    case False
    with a have "\<not> resizeContext env i" by simp
    with resize_pass_nth[OF assms(4) _ False, of i] assms(5) show ?thesis
      by (simp add: resize_image_def)
  qed
next
  assume a: "(adjustSizeSelected s = ''Min'' \<or> adjustSizeSelected s = ''Max'') \<and> resizeContext env i"
  then have "adjustSizeSelected s \<noteq> ''None''" by auto
  from resize_pass_nth[OF assms(4) _ this, of i] assms(5)
  have R: "Inr (adjusted ! i) = resize_image env s (map Some images) i (Some (images ! i))"
    by simp
  have c: "\<exists>c. adjusted ! i = Some c
      \<and> (layoutSelected s = ''Horizontal'' \<longrightarrow>
            dheight c = canvas_extent 150 (js_nat T)
          \<and> dwidth c = canvas_extent 300 (js_mul (js_nat T) (js_div (js_nat w) (js_nat h))))
      \<and> (layoutSelected s \<noteq> ''Horizontal'' \<longrightarrow>
            dwidth c = canvas_extent 300 (js_nat T)
          \<and> dheight c = canvas_extent 150 (js_div (js_nat T) (js_div (js_nat w) (js_nat h))))"
  proof (cases "layoutSelected s = ''Horizontal''")
    case True
    with a R show ?thesis
      unfolding w_def h_def T_def
      by (cases "adjustSizeSelected s = ''Min''")
         (auto simp: resize_image_def target_size_def those_map_Some Math_min_def Math_max_def
            Let_def split: option.splits)
  next
    case False
    with a R show ?thesis
      unfolding w_def h_def T_def
      by (cases "adjustSizeSelected s = ''Min''")
         (auto simp: resize_image_def target_size_def those_map_Some Math_min_def Math_max_def
            Let_def split: option.splits)
  qed
  have bw: "\<lfloor>of_nat (w * T) / of_nat h :: rat\<rfloor> - 1
        \<le> int (canvas_extent 300 (js_mul (js_nat T) (js_div (js_nat w) (js_nat h))))
      \<and> int (canvas_extent 300 (js_mul (js_nat T) (js_div (js_nat w) (js_nat h))))
        \<le> \<lfloor>of_nat (w * T) / of_nat h :: rat\<rfloor>"
    if "0 < w \<and> 0 < h \<and> 0 < T \<and> w < 2 ^ 25 \<and> h < 2 ^ 25 \<and> T < 2 ^ 25
        \<and> \<lfloor>of_nat (w * T) / of_nat h :: rat\<rfloor> \<le> 2147483647"
  proof -
    from that scaled_width_close[of w h T] obtain r where
      r: "js_mul (js_nat T) (js_div (js_nat w) (js_nat h)) = Num r"
      and r0: "0 \<le> r"
      and lo: "\<lfloor>of_nat (w * T) / of_nat h :: rat\<rfloor> - 1 \<le> \<lfloor>r\<rfloor>"
      and hi: "\<lfloor>r\<rfloor> \<le> \<lfloor>of_nat (w * T) / of_nat h :: rat\<rfloor>"
      by blast
    from hi that have "\<lfloor>r\<rfloor> \<le> 2147483647" by linarith
    with r0 have "canvas_extent 300 (Num r) = nat \<lfloor>r\<rfloor>" by (rule canvas_extent_Num)
    moreover from r0 have "0 \<le> \<lfloor>r\<rfloor>" by simp
    ultimately have "int (canvas_extent 300 (Num r)) = \<lfloor>r\<rfloor>" by simp
    with lo hi show ?thesis unfolding r by (simp only:)
  qed
  have bh: "\<lfloor>of_nat (h * T) / of_nat w :: rat\<rfloor> - 1
        \<le> int (canvas_extent 150 (js_div (js_nat T) (js_div (js_nat w) (js_nat h))))
      \<and> int (canvas_extent 150 (js_div (js_nat T) (js_div (js_nat w) (js_nat h))))
        \<le> \<lfloor>of_nat (h * T) / of_nat w :: rat\<rfloor>"
    if "0 < w \<and> 0 < h \<and> 0 < T \<and> w < 2 ^ 25 \<and> h < 2 ^ 25 \<and> T < 2 ^ 25
        \<and> \<lfloor>of_nat (h * T) / of_nat w :: rat\<rfloor> \<le> 2147483647"
  proof -
    from that scaled_height_close[of w h T] obtain r where
      r: "js_div (js_nat T) (js_div (js_nat w) (js_nat h)) = Num r"
      and r0: "0 \<le> r"
      and lo: "\<lfloor>of_nat (h * T) / of_nat w :: rat\<rfloor> - 1 \<le> \<lfloor>r\<rfloor>"
      and hi: "\<lfloor>r\<rfloor> \<le> \<lfloor>of_nat (h * T) / of_nat w :: rat\<rfloor>"
      by blast
    from hi that have "\<lfloor>r\<rfloor> \<le> 2147483647" by linarith
    with r0 have "canvas_extent 150 (Num r) = nat \<lfloor>r\<rfloor>" by (rule canvas_extent_Num)
    moreover from r0 have "0 \<le> \<lfloor>r\<rfloor>" by simp
    ultimately have "int (canvas_extent 150 (Num r)) = \<lfloor>r\<rfloor>" by simp
    with lo hi show ?thesis unfolding r by (simp only:)
  qed
  from c obtain cv where cv: "adjusted ! i = Some cv"
    and ch: "layoutSelected s = ''Horizontal'' \<longrightarrow>
            dheight cv = canvas_extent 150 (js_nat T)
          \<and> dwidth cv = canvas_extent 300 (js_mul (js_nat T) (js_div (js_nat w) (js_nat h)))"
    and cw: "layoutSelected s \<noteq> ''Horizontal'' \<longrightarrow>
            dwidth cv = canvas_extent 300 (js_nat T)
          \<and> dheight cv = canvas_extent 150 (js_div (js_nat T) (js_div (js_nat w) (js_nat h)))"
    by blast
  have t: "T \<le> 2147483647 \<longrightarrow> canvas_extent d (js_nat T) = T" for d
    by (simp add: canvas_extent_js_nat)
  show "\<exists>c. adjusted ! i = Some c
          \<and> (layoutSelected s = ''Horizontal'' \<longrightarrow>
                dheight c = canvas_extent 150 (js_nat T)
              \<and> dwidth c = canvas_extent 300 (js_mul (js_nat T) (js_div (js_nat w) (js_nat h)))
              \<and> (T \<le> 2147483647 \<longrightarrow> dheight c = T)
              \<and> (0 < w \<and> 0 < h \<and> 0 < T \<and> w < 2 ^ 25 \<and> h < 2 ^ 25 \<and> T < 2 ^ 25
                  \<and> \<lfloor>of_nat (w * T) / of_nat h :: rat\<rfloor> \<le> 2147483647 \<longrightarrow>
                    \<lfloor>of_nat (w * T) / of_nat h :: rat\<rfloor> - 1 \<le> int (dwidth c)
                  \<and> int (dwidth c) \<le> \<lfloor>of_nat (w * T) / of_nat h :: rat\<rfloor>))
          \<and> (layoutSelected s \<noteq> ''Horizontal'' \<longrightarrow>
                dwidth c = canvas_extent 300 (js_nat T)
              \<and> dheight c = canvas_extent 150 (js_div (js_nat T) (js_div (js_nat w) (js_nat h)))
              \<and> (T \<le> 2147483647 \<longrightarrow> dwidth c = T)
              \<and> (0 < w \<and> 0 < h \<and> 0 < T \<and> w < 2 ^ 25 \<and> h < 2 ^ 25 \<and> T < 2 ^ 25
                  \<and> \<lfloor>of_nat (h * T) / of_nat w :: rat\<rfloor> \<le> 2147483647 \<longrightarrow>
                    \<lfloor>of_nat (h * T) / of_nat w :: rat\<rfloor> - 1 \<le> int (dheight c)
                  \<and> int (dheight c) \<le> \<lfloor>of_nat (h * T) / of_nat w :: rat\<rfloor>))"
  proof (cases "layoutSelected s = ''Horizontal''")
    case True
    with ch t[of 150] bw cv show ?thesis
      by (intro exI[of _ cv]) (simp only: simp_thms, blast)
  next
    case False
    with cw t[of 300] bh cv show ?thesis
      by (intro exI[of _ cv]) (simp only: simp_thms, blast)
  qed
qed

theorem resized_extents_witness:
  "resize_pass example_env (example_state\<lparr>adjustSizeSelected := ''Max''\<rparr>)
     (map Some [ImageEl ''data:a'' 100 50, ImageEl ''data:b'' 80 60])
   = Inr [Some (CanvasEl 120 60
            [DrawImageScaled (ImageEl ''data:a'' 100 50) 0 0 (js_nat 120) (js_nat 60)]),
          Some (CanvasEl 80 60
            [DrawImageScaled (ImageEl ''data:b'' 80 60) 0 0 (js_nat 80) (js_nat 60)])]
   \<and> (\<exists>c. Some (CanvasEl 120 60
            [DrawImageScaled (ImageEl ''data:a'' 100 50) 0 0 (js_nat 120) (js_nat 60)]) = Some c
        \<and> dheight c = 60 \<and> dwidth c = 120
        \<and> \<lfloor>of_nat (100 * 60) / of_nat 50 :: rat\<rfloor> \<le> 2147483647
        \<and> \<lfloor>of_nat (100 * 60) / of_nat 50 :: rat\<rfloor> - 1 \<le> int (dwidth c)
        \<and> int (dwidth c) \<le> \<lfloor>of_nat (100 * 60) / of_nat 50 :: rat\<rfloor>)
   \<and> resize_pass example_env
       (example_state\<lparr>adjustSizeSelected := ''Min'', layoutSelected := ''Vertical''\<rparr>)
       (map Some [ImageEl ''data:a'' 100 50, ImageEl ''data:b'' 80 60])
     = Inr [Some (CanvasEl 80 40
            [DrawImageScaled (ImageEl ''data:a'' 100 50) 0 0 (js_nat 80) (js_nat 40)]),
          Some (CanvasEl 80 60
            [DrawImageScaled (ImageEl ''data:b'' 80 60) 0 0 (js_nat 80) (js_nat 60)])]
   \<and> (\<exists>c. Some (CanvasEl 80 40
            [DrawImageScaled (ImageEl ''data:a'' 100 50) 0 0 (js_nat 80) (js_nat 40)]) = Some c
        \<and> dwidth c = 80 \<and> dheight c = 40
        \<and> \<lfloor>of_nat (50 * 80) / of_nat 100 :: rat\<rfloor> \<le> 2147483647
        \<and> \<lfloor>of_nat (50 * 80) / of_nat 100 :: rat\<rfloor> - 1 \<le> int (dheight c)
        \<and> int (dheight c) \<le> \<lfloor>of_nat (50 * 80) / of_nat 100 :: rat\<rfloor>)
   \<and> resize_pass example_env_no_resize (example_state\<lparr>adjustSizeSelected := ''Max''\<rparr>)
       (map Some [ImageEl ''data:a'' 100 50, ImageEl ''data:b'' 80 60])
     = Inr [Some (ImageEl ''data:a'' 100 50), Some (ImageEl ''data:b'' 80 60)]"
proof -
  have i: "(0::nat) < length [ImageEl ''data:a'' 100 50, ImageEl ''data:b'' 80 60]"
    by simp
  have c: "resizeContext example_env 0" "\<not> resizeContext example_env_no_resize 0"
    by (simp_all add: example_defs)
  have l: "layoutSelected (example_state\<lparr>adjustSizeSelected := ''Max''\<rparr>) = ''Horizontal''"
    by (simp add: example_state_def)
  from resized_extents[OF resize_pass_example_max i]
    resized_extents[OF resize_pass_example_vertical i]
    resized_extents[OF resize_pass_example_no_context i]
  show ?thesis
    using resize_pass_example_max resize_pass_example_vertical resize_pass_example_no_context
    by (simp add: c l)
qed

text \<open>
  The extent along the layout is not always the exact scaled extent, and the extent across
  it not always \<open>T\<close>: at 113 x 100 beside 200 x 100 under "Min" the first image should
  keep its 113 pixels (\<open>113 * 100 / 100\<close>) and gets 112, since \<open>113 / 100\<close> rounds down in
  double precision and \<open>100 * (113 / 100)\<close> is \<open>112.99999999999999\<close>; at 46341 x 1 beside
  1 x 46341 under "Max" the first image should become 2147488281 wide
  (\<open>46341 * 46341 / 1\<close>), which is above 2147483647, and its canvas is 300 wide; and
  with no context for the resize canvases the 100 x 50 image keeps its height of 50 under
  "Max", where \<open>T\<close> is 60.
\<close>

theorem resized_extents_counterexample:
  "adjustSizeSelected example_rounding = ''Min''
   \<and> layoutSelected example_rounding = ''Horizontal''
   \<and> render example_env example_rounding =
     Some (Inr (CanvasEl 312 100
       [DrawImage (CanvasEl 112 100
          [DrawImageScaled (ImageEl ''data:c'' 113 100) 0 0
             (Num (7951668092076031 / 70368744177664)) (js_nat 100)]) 0 0,
        DrawImage (CanvasEl 200 100
          [DrawImageScaled (ImageEl ''data:d'' 200 100) 0 0 (js_nat 200) (js_nat 100)]) 112 0]))
   \<and> (112 :: rat) \<noteq> 113 * 100 / 100
   \<and> adjustSizeSelected (example_state\<lparr>adjustSizeSelected := ''Max''\<rparr>) = ''Max''
   \<and> layoutSelected (example_state\<lparr>adjustSizeSelected := ''Max''\<rparr>) = ''Horizontal''
   \<and> resizeContext example_env 0
   \<and> resize_pass example_env (example_state\<lparr>adjustSizeSelected := ''Max''\<rparr>)
       (map Some [ImageEl ''data:g'' 46341 1, ImageEl ''data:h'' 1 46341])
     = Inr [Some (CanvasEl 300 46341
              [DrawImageScaled (ImageEl ''data:g'' 46341 1) 0 0 (js_nat 2147488281) (js_nat 46341)]),
            Some (CanvasEl 1 46341
              [DrawImageScaled (ImageEl ''data:h'' 1 46341) 0 0 (js_nat 1) (js_nat 46341)])]
   \<and> (300 :: rat) \<noteq> 46341 * 46341 / 1
   \<and> render example_env_no_resize (example_state\<lparr>adjustSizeSelected := ''Max''\<rparr>) =
     Some (Inr (CanvasEl 180 60
       [DrawImage (ImageEl ''data:a'' 100 50) 0 0, DrawImage (ImageEl ''data:b'' 80 60) 100 0]))
   \<and> dheight (ImageEl ''data:a'' 100 50) \<noteq> Max (set [50, 60])"
  using render_example_rounding render_example_no_context resize_pass_example_fallback
  by (simp add: example_rounding_def example_state_def example_env_def)

text \<open>
  C3, as the code has it. When \<open>removeImage\<close> leaves fewer than two images it clears the
  stored output and calls \<open>stitchImages\<close>, which reports "Insufficient Images"; the
  background and the size policy go back to "Transparent" and "None" only when no image
  is left.
\<close>

theorem remove_below_two:
  assumes "length (items (splice1 (uploadedImages s) index)) < 2"
  shows "removeImage env s index =
     Settled (s\<lparr>uploadedImages := splice1 (uploadedImages s) index,
        stitchedImageUrl := [],
        backgroundSelected :=
          (if items (splice1 (uploadedImages s) index) = [] then ''Transparent''
           else backgroundSelected s),
        adjustSizeSelected :=
          (if items (splice1 (uploadedImages s) index) = [] then ''None''
           else adjustSizeSelected s),
        toasts := toasts s @
          [\<lparr>severity = ''error'', summary = ''Insufficient Images'',
            detail = ''Please upload at least 2 images to stitch.'', life = 3000\<rparr>]\<rparr>)"
  using assms
  by (simp add: removeImage_def Let_def stitchImages_def toast_add_def)

theorem remove_below_two_witness:
  "length (items (splice1 (uploadedImages
      (example_single\<lparr>backgroundSelected := ''Color'', adjustSizeSelected := ''Max'',
         stitchedImageUrl := ''data:old''\<rparr>)) 0)) < 2
   \<and> removeImage example_env
        (example_single\<lparr>backgroundSelected := ''Color'', adjustSizeSelected := ''Max'',
           stitchedImageUrl := ''data:old''\<rparr>) 0
     = Settled (example_single
         \<lparr>uploadedImages := splice1 (uploadedImages example_single) 0,
          toasts := [\<lparr>severity = ''error'', summary = ''Insufficient Images'',
            detail = ''Please upload at least 2 images to stitch.'', life = 3000\<rparr>]\<rparr>)
   \<and> items (splice1 (uploadedImages example_single) 0) = []"
proof -
  have h: "length (items (splice1 (uploadedImages
      (example_single\<lparr>backgroundSelected := ''Color'', adjustSizeSelected := ''Max'',
         stitchedImageUrl := ''data:old''\<rparr>)) 0)) < 2"
    by (simp add: splice1_example_single)
  from remove_below_two[OF h, of example_env] show ?thesis
    using h by (simp add: splice1_example_single) (simp add: example_single_def example_state_def)
qed

text \<open>
  Removing one of two images leaves one: the policy stays "Max", the background stays
  "Color", and the error notification is shown.
\<close>

theorem remove_below_two_counterexample:
  "length (items (uploadedImages (outcome_state (removeImage example_env
      (example_state\<lparr>backgroundSelected := ''Color'', adjustSizeSelected := ''Max''\<rparr>) 0)))) = 1
   \<and> adjustSizeSelected (outcome_state (removeImage example_env
      (example_state\<lparr>backgroundSelected := ''Color'', adjustSizeSelected := ''Max''\<rparr>) 0)) = ''Max''
   \<and> backgroundSelected (outcome_state (removeImage example_env
      (example_state\<lparr>backgroundSelected := ''Color'', adjustSizeSelected := ''Max''\<rparr>) 0)) = ''Color''
   \<and> toasts (outcome_state (removeImage example_env
      (example_state\<lparr>backgroundSelected := ''Color'', adjustSizeSelected := ''Max''\<rparr>) 0))
     = [\<lparr>severity = ''error'', summary = ''Insufficient Images'',
         detail = ''Please upload at least 2 images to stitch.'', life = 3000\<rparr>]"
  by (simp add: removeImage_def splice1_def stitchImages_def toast_add_def example_state_def)

text \<open>
  C4. With fewer than two images (none or one, alike) \<open>stitchImages\<close> reports
  "Insufficient Images" and returns: nothing is composited, and apart from that
  notification the state, the stored output included, is as before.
\<close>

theorem insufficient_images_rejected:
  assumes "length (items (uploadedImages s)) < 2"
  shows "stitchImages env s =
     Settled (s\<lparr>toasts := toasts s @
        [\<lparr>severity = ''error'', summary = ''Insufficient Images'',
          detail = ''Please upload at least 2 images to stitch.'', life = 3000\<rparr>]\<rparr>)"
  using assms by (simp add: stitchImages_def toast_add_def)

theorem insufficient_images_rejected_witness:
  "length (items (uploadedImages example_single)) < 2
   \<and> stitchImages example_env example_single =
       Settled (example_single\<lparr>toasts :=
         [\<lparr>severity = ''error'', summary = ''Insufficient Images'',
           detail = ''Please upload at least 2 images to stitch.'', life = 3000\<rparr>]\<rparr>)
   \<and> length (items (uploadedImages (example_state\<lparr>uploadedImages := empty_array\<rparr>))) < 2
   \<and> stitchImages example_env (example_state\<lparr>uploadedImages := empty_array\<rparr>) =
       Settled (example_state\<lparr>uploadedImages := empty_array, toasts :=
         [\<lparr>severity = ''error'', summary = ''Insufficient Images'',
           detail = ''Please upload at least 2 images to stitch.'', life = 3000\<rparr>]\<rparr>)"
proof -
  have one: "length (items (uploadedImages example_single)) < 2"
    by (simp add: example_single_def)
  have none: "length (items (uploadedImages (example_state\<lparr>uploadedImages := empty_array\<rparr>))) < 2"
    by (simp add: empty_array_def)
  have t1: "toasts example_single = []"
    by (simp add: example_single_def example_state_def)
  have t0: "toasts example_state = []"
    by (simp add: example_state_def)
  from insufficient_images_rejected[OF one, of example_env]
    insufficient_images_rejected[OF none, of example_env]
  show ?thesis using one none by (simp add: t1 t0)
qed

text \<open>
  C5. The calls on the output canvas of a finished composite are the background fill
  (over the bounds computed from the adjusted images) followed by one \<open>drawImage\<close> per
  adjusted image, in input order; the image at index \<open>i\<close> is drawn at the sum of the
  extents along the layout of the images before it (so the first at 0) and at 0 across the
  layout. For 100 x 50 and 80 x 60 side by side without resizing these are (0, 0) and
  (100, 0) on a canvas of 180 x 60.
\<close>

theorem placement_offsets:
  assumes "2 \<le> length (items (uploadedImages s))"
    and "render env s = Some (Inr canvas)"
  shows "\<exists>images adjusted.
      Promise_all (map (load_image env) (items (uploadedImages s))) = Fulfilled (map Some images)
    \<and> resize_pass env s (map Some images) = Inr (map Some adjusted)
    \<and> calls canvas =
        fill_background s (fst (canvas_size s adjusted)) (snd (canvas_size s adjusted)) @
        map (\<lambda>i. if layoutSelected s = ''Horizontal''
                then DrawImage (adjusted ! i) (sum_list (map dwidth (take i adjusted))) 0
                else DrawImage (adjusted ! i) 0 (sum_list (map dheight (take i adjusted))))
          [0..<length adjusted]"
proof -
  from render_success[OF assms(2)] obtain images adj where
    p: "Promise_all (map (load_image env) (items (uploadedImages s))) = Fulfilled (map Some images)"
    and r: "resize_pass env s (map Some images) = Inr (map Some adj)"
    and cv: "canvas = CanvasEl (canvas_extent 300 (js_nat (fst (canvas_size s adj))))
        (canvas_extent 150 (js_nat (snd (canvas_size s adj))))
        (fill_background s (fst (canvas_size s adj)) (snd (canvas_size s adj)) @
         map (\<lambda>i. if layoutSelected s = ''Horizontal''
                 then DrawImage (adj ! i) (sum_list (map dwidth (take i adj))) 0
                 else DrawImage (adj ! i) 0 (sum_list (map dheight (take i adj))))
           [0..<length adj])"
    by blast
  have "calls canvas = fill_background s (fst (canvas_size s adj)) (snd (canvas_size s adj)) @
        map (\<lambda>i. if layoutSelected s = ''Horizontal''
                then DrawImage (adj ! i) (sum_list (map dwidth (take i adj))) 0
                else DrawImage (adj ! i) 0 (sum_list (map dheight (take i adj))))
          [0..<length adj]"
    by (simp add: cv)
  with p r show ?thesis by blast
qed

theorem placement_offsets_witness:
  "2 \<le> length (items (uploadedImages example_state))
   \<and> render example_env example_state = Some (Inr (CanvasEl 180 60
         [DrawImage (ImageEl ''data:a'' 100 50) 0 0, DrawImage (ImageEl ''data:b'' 80 60) 100 0]))
   \<and> (\<exists>images adjusted.
         Promise_all (map (load_image example_env) (items (uploadedImages example_state)))
           = Fulfilled (map Some images)
       \<and> resize_pass example_env example_state (map Some images) = Inr (map Some adjusted)
       \<and> [DrawImage (ImageEl ''data:a'' 100 50) 0 0, DrawImage (ImageEl ''data:b'' 80 60) 100 0]
           = map (\<lambda>i. DrawImage (adjusted ! i) (sum_list (map dwidth (take i adjusted))) 0)
               [0..<length adjusted])"
proof -
  have l: "layoutSelected example_state = ''Horizontal''"
    and b: "backgroundSelected example_state = ''Transparent''"
    by (simp_all add: example_state_def)
  from placement_offsets[OF example_two render_example] show ?thesis
    using example_two render_example by (simp add: l b fill_background_def)
qed

text \<open>
  C6, as the code has it. Without a context for the output canvas a composite of at least
  two images reports "Stitching Failed" with the message of the thrown error and ends:
  the stored output and everything else is as before, the busy flag is cleared. Without a
  context for a resize canvas nothing is thrown: the callback of the resize pass returns
  the image as it is and the composite goes on.
\<close>

theorem no_output_context_aborts:
  "(2 \<le> length (items (uploadedImages s)) \<and> \<not> outputContext env \<longrightarrow>
      stitchImages env s =
        Settled (s\<lparr>isStitching := False,
          toasts := toasts s @
            [\<lparr>severity = ''error'', summary = ''Stitching Failed'',
              detail = ''Failed to stitch images: Error: Failed to get canvas context'',
              life = 3000\<rparr>]\<rparr>))
   \<and> (\<not> resizeContext env i \<longrightarrow> resize_image env s images i img = Inr img)"
proof (intro conjI impI)
  assume a: "2 \<le> length (items (uploadedImages s)) \<and> \<not> outputContext env"
  then have "render env (s\<lparr>isStitching := True\<rparr>)
      = Some (Inl (Error ''Failed to get canvas context''))"
    by (simp add: render_def)
  with a show "stitchImages env s =
        Settled (s\<lparr>isStitching := False,
          toasts := toasts s @
            [\<lparr>severity = ''error'', summary = ''Stitching Failed'',
              detail = ''Failed to stitch images: Error: Failed to get canvas context'',
              life = 3000\<rparr>]\<rparr>)"
    by (simp add: stitchImages_def showToast_error_def toast_add_def)
next
  assume "\<not> resizeContext env i"
  then show "resize_image env s images i img = Inr img"
    by (simp add: resize_image_def)
qed

theorem no_output_context_aborts_witness:
  "2 \<le> length (items (uploadedImages (example_state\<lparr>stitchedImageUrl := ''data:old''\<rparr>)))
   \<and> \<not> outputContext (example_env\<lparr>outputContext := False\<rparr>)
   \<and> stitchImages (example_env\<lparr>outputContext := False\<rparr>)
        (example_state\<lparr>stitchedImageUrl := ''data:old''\<rparr>)
     = Settled (example_state\<lparr>stitchedImageUrl := ''data:old'',
         toasts := [\<lparr>severity = ''error'', summary = ''Stitching Failed'',
              detail = ''Failed to stitch images: Error: Failed to get canvas context'',
              life = 3000\<rparr>]\<rparr>)
   \<and> \<not> resizeContext example_env_no_resize 0
   \<and> resize_image example_env_no_resize (example_state\<lparr>adjustSizeSelected := ''Max''\<rparr>)
        [Some (ImageEl ''data:a'' 100 50), Some (ImageEl ''data:b'' 80 60)] 0
        (Some (ImageEl ''data:a'' 100 50))
     = Inr (Some (ImageEl ''data:a'' 100 50))"
proof -
  have h: "2 \<le> length (items (uploadedImages (example_state\<lparr>stitchedImageUrl := ''data:old''\<rparr>)))"
    "\<not> outputContext (example_env\<lparr>outputContext := False\<rparr>)"
    "\<not> resizeContext example_env_no_resize 0"
    by (simp_all add: example_defs)
  from no_output_context_aborts[of "example_state\<lparr>stitchedImageUrl := ''data:old''\<rparr>"
      "example_env\<lparr>outputContext := False\<rparr>"]
    no_output_context_aborts[of "example_state\<lparr>adjustSizeSelected := ''Max''\<rparr>"
      example_env_no_resize 0
      "[Some (ImageEl ''data:a'' 100 50), Some (ImageEl ''data:b'' 80 60)]"
      "Some (ImageEl ''data:a'' 100 50)"]
  show ?thesis
    using h by (simp add: example_state_def)
qed

text \<open>
  With no context for either resize canvas the composite under "Min" still replaces the
  stored output and shows no notification.
\<close>

theorem no_output_context_aborts_counterexample:
  "resizeContext example_env_no_resize 0 = False
   \<and> resizeContext example_env_no_resize 1 = False
   \<and> stitchImages example_env_no_resize
        (example_state\<lparr>adjustSizeSelected := ''Min'', stitchedImageUrl := ''data:old''\<rparr>)
     = Settled (example_state\<lparr>adjustSizeSelected := ''Min'', stitchedImageUrl := ''data:image/png''\<rparr>)
   \<and> toasts (example_state\<lparr>adjustSizeSelected := ''Min'', stitchedImageUrl := ''data:image/png''\<rparr>) = []"
  by (simp add: stitchImages_def example_defs render_defs)

text \<open>
  C7, as the code has it. An invocation of \<open>stitchImages\<close> on at least two elements that
  ends does so with the busy flag cleared: after a composite, and after any exception of
  the \<open>try\<close> block (no context, a TypeError, an exception of \<open>drawImage\<close> or
  \<open>toDataURL\<close>). It does not end, and leaves the busy flag set, exactly when the output
  canvas has a context, no element is \<open>undefined\<close> and some image never finishes loading:
  the \<open>await\<close> of line 120 then never resumes. An invocation on fewer than two elements
  returns at line 105 and leaves the busy flag as it found it.
\<close>

theorem busy_flag_cleared:
  "(2 \<le> length (items (uploadedImages s)) \<longrightarrow>
      (\<forall>s'. stitchImages env s = Settled s' \<longrightarrow> \<not> isStitching s')
    \<and> (if outputContext env \<and> Undef \<notin> set (items (uploadedImages s))
           \<and> (\<exists>d. Item d \<in> set (items (uploadedImages s)) \<and> decode env (url d) = None)
        then stitchImages env s = Pending (s\<lparr>isStitching := True\<rparr>)
        else \<exists>s'. stitchImages env s = Settled s' \<and> \<not> isStitching s'))
   \<and> (length (items (uploadedImages s)) < 2 \<longrightarrow>
        (\<exists>s'. stitchImages env s = Settled s' \<and> isStitching s' = isStitching s))"
proof (intro conjI impI)
  assume two: "2 \<le> length (items (uploadedImages s))"
  let ?s1 = "s\<lparr>isStitching := True\<rparr>"
  let ?stalls = "outputContext env \<and> Undef \<notin> set (items (uploadedImages s))
      \<and> (\<exists>d. Item d \<in> set (items (uploadedImages s)) \<and> decode env (url d) = None)"
  have st: "render env ?s1 = None \<longleftrightarrow> ?stalls"
    using render_stalls[of env ?s1] by simp
  have settled: "\<exists>s'. stitchImages env s = Settled s' \<and> \<not> isStitching s'" if "\<not> ?stalls"
  proof -
    from that st obtain r where "render env ?s1 = Some r" by auto
    with two show ?thesis
      by (auto simp: stitchImages_def Let_def showToast_error_def toast_add_def
          split: sum.splits)
  qed
  have pending: "stitchImages env s = Pending ?s1" if "?stalls"
  proof -
    from that st have "render env ?s1 = None" by simp
    with two show ?thesis by (simp add: stitchImages_def Let_def)
  qed
  show "\<forall>s'. stitchImages env s = Settled s' \<longrightarrow> \<not> isStitching s'"
  proof (cases "?stalls")
    case True
    from pending[OF this] show ?thesis by simp
  next
    case False
    from settled[OF this] show ?thesis by auto
  qed
  show "if ?stalls then stitchImages env s = Pending ?s1
        else \<exists>s'. stitchImages env s = Settled s' \<and> \<not> isStitching s'"
  proof (cases "?stalls")
    case True
    show ?thesis by (subst if_P[OF True]) (rule pending[OF True])
  next
    case False
    show ?thesis by (subst if_not_P[OF False]) (rule settled[OF False])
  qed
next
  assume "length (items (uploadedImages s)) < 2"
  then show "\<exists>s'. stitchImages env s = Settled s' \<and> isStitching s' = isStitching s"
    by (simp add: stitchImages_def toast_add_def)
qed

theorem busy_flag_cleared_witness:
  "2 \<le> length (items (uploadedImages example_state))
   \<and> decode example_env ''data:a'' \<noteq> None \<and> decode example_env ''data:b'' \<noteq> None
   \<and> (\<exists>s'. stitchImages example_env example_state = Settled s' \<and> \<not> isStitching s')
   \<and> stitchImages example_env_throwing example_state
     = Settled (example_state\<lparr>toasts :=
         [\<lparr>severity = ''error'', summary = ''Stitching Failed'',
           detail = ''Failed to stitch images: InvalidStateError'', life = 3000\<rparr>]\<rparr>)
   \<and> \<not> isStitching (example_state\<lparr>toasts :=
         [\<lparr>severity = ''error'', summary = ''Stitching Failed'',
           detail = ''Failed to stitch images: InvalidStateError'', life = 3000\<rparr>]\<rparr>)
   \<and> outputContext example_env_stalled
   \<and> Undef \<notin> set (items (uploadedImages example_state))
   \<and> Item \<lparr>file_name = ''a.png'', url = ''data:a'', width = 100, height = 50\<rparr>
        \<in> set (items (uploadedImages example_state))
   \<and> decode example_env_stalled ''data:a'' = None
   \<and> stitchImages example_env_stalled example_state = Pending (example_state\<lparr>isStitching := True\<rparr>)
   \<and> length (items (uploadedImages example_single)) < 2
   \<and> (\<exists>s'. stitchImages example_env example_single = Settled s'
          \<and> isStitching s' = isStitching example_single)"
proof -
  have d: "decode example_env ''data:a'' \<noteq> None" "decode example_env ''data:b'' \<noteq> None"
    by (simp_all add: example_env_def)
  have ok: "\<not> (outputContext example_env \<and> Undef \<notin> set (items (uploadedImages example_state))
      \<and> (\<exists>d. Item d \<in> set (items (uploadedImages example_state))
            \<and> decode example_env (url d) = None))"
    by (auto simp: example_env_def example_state_def)
  from busy_flag_cleared[of example_state example_env] example_two ok
  have 1: "\<exists>s'. stitchImages example_env example_state = Settled s' \<and> \<not> isStitching s'"
    by (simp only: if_False simp_thms)
  have f: "stitchImages example_env_throwing example_state
     = Settled (example_state\<lparr>toasts :=
         [\<lparr>severity = ''error'', summary = ''Stitching Failed'',
           detail = ''Failed to stitch images: InvalidStateError'', life = 3000\<rparr>]\<rparr>)"
    by (simp add: stitchImages_def showToast_error_def toast_add_def example_defs
        render_defs float_facts)
  from busy_flag_cleared[of example_state example_env_throwing] example_two f
  have 2: "\<not> isStitching (example_state\<lparr>toasts :=
         [\<lparr>severity = ''error'', summary = ''Stitching Failed'',
           detail = ''Failed to stitch images: InvalidStateError'', life = 3000\<rparr>]\<rparr>)"
    by blast
  have c: "outputContext example_env_stalled"
    "Undef \<notin> set (items (uploadedImages example_state))"
    "Item \<lparr>file_name = ''a.png'', url = ''data:a'', width = 100, height = 50\<rparr>
        \<in> set (items (uploadedImages example_state))"
    "decode example_env_stalled ''data:a'' = None"
    by (simp_all add: example_env_stalled_def example_env_def example_state_def)
  then have stalls: "outputContext example_env_stalled
      \<and> Undef \<notin> set (items (uploadedImages example_state))
      \<and> (\<exists>d. Item d \<in> set (items (uploadedImages example_state))
            \<and> decode example_env_stalled (url d) = None)"
    by (intro conjI exI[of _ "\<lparr>file_name = ''a.png'', url = ''data:a'', width = 100, height = 50\<rparr>"])
       simp_all
  from busy_flag_cleared[of example_state example_env_stalled] example_two stalls
  have 3: "stitchImages example_env_stalled example_state
      = Pending (example_state\<lparr>isStitching := True\<rparr>)"
    by (simp only: if_True simp_thms)
  have one: "length (items (uploadedImages example_single)) < 2"
    by (simp add: example_single_def)
  with busy_flag_cleared[of example_single example_env]
  have 4: "\<exists>s'. stitchImages example_env example_single = Settled s'
          \<and> isStitching s' = isStitching example_single"
    by blast
  from example_two d 1 f 2 c 3 one 4 show ?thesis
    by (intro conjI)
qed

text \<open>
  Two invocations that leave the busy flag set. When no image finishes loading, the
  invocation on 100 x 50 and 80 x 60 waits for ever with the flag set. And an invocation
  on a single image that finds the flag set (by an earlier invocation that is still
  waiting) returns with the notification and the flag still set.
\<close>

theorem busy_flag_cleared_counterexample:
  "2 \<le> length (items (uploadedImages example_state))
   \<and> stitchImages example_env_stalled example_state = Pending (example_state\<lparr>isStitching := True\<rparr>)
   \<and> isStitching (example_state\<lparr>isStitching := True\<rparr>)
   \<and> stitchImages example_env (example_single\<lparr>isStitching := True\<rparr>)
     = Settled (example_single\<lparr>isStitching := True,
         toasts := [\<lparr>severity = ''error'', summary = ''Insufficient Images'',
           detail = ''Please upload at least 2 images to stitch.'', life = 3000\<rparr>]\<rparr>)
   \<and> isStitching (example_single\<lparr>isStitching := True,
         toasts := [\<lparr>severity = ''error'', summary = ''Insufficient Images'',
           detail = ''Please upload at least 2 images to stitch.'', life = 3000\<rparr>]\<rparr>)"
  by (simp add: stitchImages_def toast_add_def example_defs render_def load_image_def)

text \<open>
  C8. With \<open>backgroundSelected = "Color"\<close> the first calls on the output canvas set the
  fill style to the chosen colour (\<open>#ffffff\<close> when it is empty, with a \<open>#\<close> put in front
  when it has none) and fill the rectangle from (0, 0) over the width and height computed
  for the canvas. That rectangle covers the canvas: the canvas has the computed width and
  height when they are at most 2147483647 and is never larger. Every call after that draws
  an image. With any other background, "Transparent" among them, every call draws an
  image: nothing is filled.
\<close>

theorem background_fill:
  assumes "2 \<le> length (items (uploadedImages s))"
    and "render env s = Some (Inr canvas)"
  shows "(backgroundSelected s = ''Color'' \<longrightarrow>
      (\<exists>W H draws. calls canvas =
          SetFillStyle (if backgroundColor s = [] then ''#ffffff''
                        else if take 1 (backgroundColor s) = ''#'' then backgroundColor s
                        else ''#'' @ backgroundColor s)
          # FillRect 0 0 W H # draws
        \<and> dwidth canvas = canvas_extent 300 (js_nat W)
        \<and> dheight canvas = canvas_extent 150 (js_nat H)
        \<and> dwidth canvas \<le> W \<and> dheight canvas \<le> H
        \<and> (W \<le> 2147483647 \<longrightarrow> dwidth canvas = W)
        \<and> (H \<le> 2147483647 \<longrightarrow> dheight canvas = H)
        \<and> (\<forall>c \<in> set draws. \<exists>img x y. c = DrawImage img x y)))
   \<and> (backgroundSelected s \<noteq> ''Color'' \<longrightarrow>
        (\<forall>c \<in> set (calls canvas). \<exists>img x y. c = DrawImage img x y))"
proof -
  from render_success[OF assms(2)] obtain adj draws where
    cv: "canvas = CanvasEl (canvas_extent 300 (js_nat (fst (canvas_size s adj))))
        (canvas_extent 150 (js_nat (snd (canvas_size s adj))))
        (fill_background s (fst (canvas_size s adj)) (snd (canvas_size s adj)) @ draws)"
    and d: "draws = map (\<lambda>i. if layoutSelected s = ''Horizontal''
                 then DrawImage (adj ! i) (sum_list (map dwidth (take i adj))) 0
                 else DrawImage (adj ! i) 0 (sum_list (map dheight (take i adj))))
           [0..<length adj]"
    by blast
  define W where "W = fst (canvas_size s adj)"
  define H where "H = snd (canvas_size s adj)"
  from d have a: "\<forall>c \<in> set draws. \<exists>img x y. c = DrawImage img x y"
    by auto
  have dw: "dwidth canvas = canvas_extent 300 (js_nat W)"
    and dh: "dheight canvas = canvas_extent 150 (js_nat H)"
    by (simp_all add: cv W_def H_def)
  have le: "dwidth canvas \<le> W" "dheight canvas \<le> H"
    unfolding dw dh by (rule canvas_extent_le, simp)+
  have e: "W \<le> 2147483647 \<longrightarrow> dwidth canvas = W" "H \<le> 2147483647 \<longrightarrow> dheight canvas = H"
    by (simp_all add: dw dh canvas_extent_js_nat)
  show ?thesis
  proof (intro conjI impI)
    assume "backgroundSelected s = ''Color''"
    then have "calls canvas =
          SetFillStyle (if backgroundColor s = [] then ''#ffffff''
                        else if take 1 (backgroundColor s) = ''#'' then backgroundColor s
                        else ''#'' @ backgroundColor s)
          # FillRect 0 0 W H # draws"
      by (simp add: cv fill_background_def fill_color_def W_def H_def)
    with a dw dh le e show "\<exists>W H draws. calls canvas =
          SetFillStyle (if backgroundColor s = [] then ''#ffffff''
                        else if take 1 (backgroundColor s) = ''#'' then backgroundColor s
                        else ''#'' @ backgroundColor s)
          # FillRect 0 0 W H # draws
        \<and> dwidth canvas = canvas_extent 300 (js_nat W)
        \<and> dheight canvas = canvas_extent 150 (js_nat H)
        \<and> dwidth canvas \<le> W \<and> dheight canvas \<le> H
        \<and> (W \<le> 2147483647 \<longrightarrow> dwidth canvas = W)
        \<and> (H \<le> 2147483647 \<longrightarrow> dheight canvas = H)
        \<and> (\<forall>c \<in> set draws. \<exists>img x y. c = DrawImage img x y)"
      by blast
  next
    assume "backgroundSelected s \<noteq> ''Color''"
    then have "calls canvas = draws"
      by (simp add: cv fill_background_def)
    with a show "\<forall>c \<in> set (calls canvas). \<exists>img x y. c = DrawImage img x y"
      by simp
  qed
qed

theorem background_fill_witness:
  "render example_env (example_state\<lparr>backgroundSelected := ''Color'', backgroundColor := ''ff0000''\<rparr>)
     = Some (Inr (CanvasEl 180 60
         [SetFillStyle ''#ff0000'', FillRect 0 0 180 60,
          DrawImage (ImageEl ''data:a'' 100 50) 0 0, DrawImage (ImageEl ''data:b'' 80 60) 100 0]))
   \<and> (\<exists>draws.
        [SetFillStyle ''#ff0000'', FillRect 0 0 180 60,
         DrawImage (ImageEl ''data:a'' 100 50) 0 0, DrawImage (ImageEl ''data:b'' 80 60) 100 0]
          = SetFillStyle ''#ff0000'' # FillRect 0 0 180 60 # draws
      \<and> (\<exists>i1 x1 y1 i2 x2 y2. draws = [DrawImage i1 x1 y1, DrawImage i2 x2 y2]))
   \<and> (180 :: nat) \<le> 2147483647 \<and> (60 :: nat) \<le> 2147483647
   \<and> render example_env example_state = Some (Inr (CanvasEl 180 60
         [DrawImage (ImageEl ''data:a'' 100 50) 0 0, DrawImage (ImageEl ''data:b'' 80 60) 100 0]))
   \<and> (\<exists>img x y. DrawImage (ImageEl ''data:a'' 100 50) 0 0 = DrawImage img x y)
   \<and> (\<exists>img x y. DrawImage (ImageEl ''data:b'' 80 60) 100 0 = DrawImage img x y)"
proof -
  have two: "2 \<le> length (items (uploadedImages
      (example_state\<lparr>backgroundSelected := ''Color'', backgroundColor := ''ff0000''\<rparr>)))"
    by (simp add: example_state_def)
  have b: "backgroundSelected example_state \<noteq> ''Color''"
    by (simp add: example_state_def)
  from background_fill[OF two render_example_color] background_fill[OF example_two render_example]
  show ?thesis
    using render_example_color render_example by (simp add: b)
qed

text \<open>
  C9. \<open>moveImageUp\<close> at an index of 0 or less and \<open>moveImageDown\<close> at the last index or
  beyond return the state as it is. At an index with a predecessor (\<open>moveImageUp\<close>) or a
  successor (\<open>moveImageDown\<close>) in the array, the two elements change places: what the
  indices read afterwards is what they read before with these two exchanged, the length
  is the same and so is the multiset of elements.
\<close>

theorem move_is_permutation:
  "(index \<le> 0 \<longrightarrow> moveImageUp env s index = Settled s)
 \<and> (int (length (items (uploadedImages s))) - 1 \<le> index \<longrightarrow> moveImageDown env s index = Settled s)
 \<and> (0 < index \<and> index < int (length (items (uploadedImages s))) \<longrightarrow>
      map slot_value (items (uploadedImages (outcome_state (moveImageUp env s index))))
        = (map slot_value (items (uploadedImages s)))
            [nat index := map slot_value (items (uploadedImages s)) ! (nat index - 1),
             nat index - 1 := map slot_value (items (uploadedImages s)) ! nat index]
    \<and> length (items (uploadedImages (outcome_state (moveImageUp env s index))))
        = length (items (uploadedImages s))
    \<and> mset (map slot_value (items (uploadedImages (outcome_state (moveImageUp env s index)))))
        = mset (map slot_value (items (uploadedImages s))))
 \<and> (0 \<le> index \<and> index < int (length (items (uploadedImages s))) - 1 \<longrightarrow>
      map slot_value (items (uploadedImages (outcome_state (moveImageDown env s index))))
        = (map slot_value (items (uploadedImages s)))
            [nat index := map slot_value (items (uploadedImages s)) ! (nat index + 1),
             nat index + 1 := map slot_value (items (uploadedImages s)) ! nat index]
    \<and> length (items (uploadedImages (outcome_state (moveImageDown env s index))))
        = length (items (uploadedImages s))
    \<and> mset (map slot_value (items (uploadedImages (outcome_state (moveImageDown env s index)))))
        = mset (map slot_value (items (uploadedImages s))))"
proof (intro conjI impI)
  assume "index \<le> 0"
  then show "moveImageUp env s index = Settled s"
    by (simp add: moveImageUp_def)
next
  assume "int (length (items (uploadedImages s))) - 1 \<le> index"
  then show "moveImageDown env s index = Settled s"
    by (simp add: moveImageDown_def)
next
  assume r: "0 < index \<and> index < int (length (items (uploadedImages s)))"
  then have i: "nat index < length (items (uploadedImages s))"
    and j: "nat index - 1 < length (items (uploadedImages s))"
    by auto
  from r have e: "items (uploadedImages (outcome_state (moveImageUp env s index)))
       = (items (uploadedImages s))
           [nat index := slot_of (slot_value (items (uploadedImages s) ! (nat index - 1))),
            nat index - 1 := slot_of (slot_value (items (uploadedImages s) ! nat index))]"
    by (simp add: moveImageUp_items)
  show m: "map slot_value (items (uploadedImages (outcome_state (moveImageUp env s index))))
        = (map slot_value (items (uploadedImages s)))
            [nat index := map slot_value (items (uploadedImages s)) ! (nat index - 1),
             nat index - 1 := map slot_value (items (uploadedImages s)) ! nat index]"
    unfolding e using i j by (rule swap_slots)
  show "length (items (uploadedImages (outcome_state (moveImageUp env s index))))
        = length (items (uploadedImages s))"
    unfolding e by simp
  show "mset (map slot_value (items (uploadedImages (outcome_state (moveImageUp env s index)))))
        = mset (map slot_value (items (uploadedImages s)))"
    unfolding m by (rule mset_swap) (use i j in simp_all)
next
  assume r: "0 \<le> index \<and> index < int (length (items (uploadedImages s))) - 1"
  then have i: "nat index < length (items (uploadedImages s))"
    and j: "nat index + 1 < length (items (uploadedImages s))"
    by auto
  from r have e: "items (uploadedImages (outcome_state (moveImageDown env s index)))
       = (items (uploadedImages s))
           [nat index := slot_of (slot_value (items (uploadedImages s) ! (nat index + 1))),
            nat index + 1 := slot_of (slot_value (items (uploadedImages s) ! nat index))]"
    by (simp add: moveImageDown_items)
  show m: "map slot_value (items (uploadedImages (outcome_state (moveImageDown env s index))))
        = (map slot_value (items (uploadedImages s)))
            [nat index := map slot_value (items (uploadedImages s)) ! (nat index + 1),
             nat index + 1 := map slot_value (items (uploadedImages s)) ! nat index]"
    unfolding e using i j by (rule swap_slots)
  show "length (items (uploadedImages (outcome_state (moveImageDown env s index))))
        = length (items (uploadedImages s))"
    unfolding e by simp
  show "mset (map slot_value (items (uploadedImages (outcome_state (moveImageDown env s index)))))
        = mset (map slot_value (items (uploadedImages s)))"
    unfolding m by (rule mset_swap) (use i j in simp_all)
qed

theorem move_is_permutation_witness:
  "moveImageUp example_env example_state 0 = Settled example_state
   \<and> moveImageUp example_env example_state (- 1) = Settled example_state
   \<and> moveImageDown example_env example_state 1 = Settled example_state
   \<and> moveImageDown example_env example_state 2 = Settled example_state
   \<and> map slot_value (items (uploadedImages (outcome_state (moveImageUp example_env example_state 1))))
       = [Some \<lparr>file_name = ''b.png'', url = ''data:b'', width = 80, height = 60\<rparr>,
          Some \<lparr>file_name = ''a.png'', url = ''data:a'', width = 100, height = 50\<rparr>]
   \<and> map slot_value (items (uploadedImages (outcome_state (moveImageDown example_env example_state 0))))
       = [Some \<lparr>file_name = ''b.png'', url = ''data:b'', width = 80, height = 60\<rparr>,
          Some \<lparr>file_name = ''a.png'', url = ''data:a'', width = 100, height = 50\<rparr>]"
proof -
  have n: "items (uploadedImages example_state)
      = [Item \<lparr>file_name = ''a.png'', url = ''data:a'', width = 100, height = 50\<rparr>,
         Item \<lparr>file_name = ''b.png'', url = ''data:b'', width = 80, height = 60\<rparr>]"
    by (simp add: example_state_def)
  from move_is_permutation[of 0 example_env example_state]
    move_is_permutation[of "- 1" example_env example_state]
    move_is_permutation[of 1 example_env example_state]
    move_is_permutation[of 2 example_env example_state]
  show ?thesis by (simp add: n)
qed

text \<open>
  C10. With no stored output \<open>downloadStitchedImage\<close> reports "No Image" and changes
  nothing else: no link is clicked. With a stored output it clicks exactly one link, to
  that output.
\<close>

theorem download_needs_output:
  "(stitchedImageUrl s = [] \<longrightarrow>
      downloadStitchedImage env s =
        s\<lparr>toasts := toasts s @
          [\<lparr>severity = ''error'', summary = ''No Image'',
            detail = ''No stitched image available to download.'', life = 3000\<rparr>]\<rparr>)
   \<and> (stitchedImageUrl s \<noteq> [] \<longrightarrow>
      downloads (downloadStitchedImage env s) =
        downloads s @ [\<lparr>href = stitchedImageUrl s,
          filename = ''stitched-image-'' @ show_nat (now env) @ ''.png''\<rparr>])"
proof (intro conjI impI)
  assume "stitchedImageUrl s = []"
  then show "downloadStitchedImage env s =
        s\<lparr>toasts := toasts s @
          [\<lparr>severity = ''error'', summary = ''No Image'',
            detail = ''No stitched image available to download.'', life = 3000\<rparr>]\<rparr>"
    by (simp add: downloadStitchedImage_def showToast_error_def toast_add_def)
next
  assume "stitchedImageUrl s \<noteq> []"
  then show "downloads (downloadStitchedImage env s) =
        downloads s @ [\<lparr>href = stitchedImageUrl s,
          filename = ''stitched-image-'' @ show_nat (now env) @ ''.png''\<rparr>]"
    by (simp add: downloadStitchedImage_def showToast_success_def toast_add_def)
qed

theorem download_needs_output_witness:
  "stitchedImageUrl example_state = []
   \<and> downloadStitchedImage example_env example_state =
       example_state\<lparr>toasts :=
          [\<lparr>severity = ''error'', summary = ''No Image'',
            detail = ''No stitched image available to download.'', life = 3000\<rparr>]\<rparr>
   \<and> downloads (downloadStitchedImage example_env example_state) = []
   \<and> stitchedImageUrl (example_state\<lparr>stitchedImageUrl := ''data:image/png''\<rparr>) \<noteq> []
   \<and> downloads (downloadStitchedImage example_env
        (example_state\<lparr>stitchedImageUrl := ''data:image/png''\<rparr>))
     = [\<lparr>href = ''data:image/png'', filename = ''stitched-image-1700000000000.png''\<rparr>]"
proof -
  have u: "stitchedImageUrl example_state = []" and t: "toasts example_state = []"
    and d: "downloads example_state = []"
    by (simp_all add: example_state_def)
  from download_needs_output[of example_state example_env]
    download_needs_output[of "example_state\<lparr>stitchedImageUrl := ''data:image/png''\<rparr>" example_env]
  show ?thesis
    by (simp add: u t d show_nat_example)
qed

end
